theory Spec2Isabelle
  imports Complex_Main
begin

section \<open>Tensors, floating-point values and errors\<close>

text \<open>
  A floating-point tensor element is a finite value, one of the two infinities or NaN.
  Finite values are kept as rationals; the two signed zeros are not distinguished (they
  compare equal and are both falsy in Python). Rounding is never modelled here: the
  arithmetic of the tensor library (\<open>+\<close>, \<open>*\<close>, \<open>sigmoid\<close>, ...) is passed to the
  functions below as parameters, and only the operations that are exact on floats
  (comparison, \<open>nan_to_num\<close>, indexing, masking) are defined.
\<close>

datatype fl = Fin rat | PInf | NInf | NaN

text \<open>The exceptions the modelled code can raise, with the message where the source gives one.\<close>

datatype error =
    AssertionError string
  | ImportError string
  | NotImplementedError string
  | IndexError
  | ShapeError
  | ZeroDivisionError
  | RuntimeError
  | TypeError
  | OSError

text \<open>IEEE comparison: every comparison with NaN is false.\<close>

fun fl_ge :: "fl \<Rightarrow> fl \<Rightarrow> bool" where
  "fl_ge NaN _ = False"
| "fl_ge _ NaN = False"
| "fl_ge PInf _ = True"
| "fl_ge _ NInf = True"
| "fl_ge NInf _ = False"
| "fl_ge _ PInf = False"
| "fl_ge (Fin a) (Fin b) = (b \<le> a)"

definition fl_le :: "fl \<Rightarrow> fl \<Rightarrow> bool" where
  "fl_le a b = fl_ge b a"

fun is_finite :: "fl \<Rightarrow> bool" where
  "is_finite (Fin _) = True"
| "is_finite _ = False"

fun fl_val :: "fl \<Rightarrow> rat" where
  "fl_val (Fin r) = r"
| "fl_val _ = 0"

text \<open>Collecting the results of a list of fallible steps: the first error wins.\<close>

fun sequence :: "(error + 'a) list \<Rightarrow> error + 'a list" where
  "sequence [] = Inr []"
| "sequence (Inl e # _) = Inl e"
| "sequence (Inr x # rs) = (case sequence rs of Inl e \<Rightarrow> Inl e | Inr xs \<Rightarrow> Inr (x # xs))"

text \<open>
  Broadcasting of one dimension, as the tensor library does it for every elementwise
  operation: equal sizes are paired off, a dimension of size 1 is repeated, anything else
  is a shape error.
\<close>

definition bcast :: "('a \<Rightarrow> 'b \<Rightarrow> 'c) \<Rightarrow> 'a list \<Rightarrow> 'b list \<Rightarrow> error + 'c list" where
  "bcast f xs ys =
     (if length xs = length ys then Inr (map2 f xs ys)
      else if length xs = 1 then Inr (map (f (hd xs)) ys)
      else if length ys = 1 then Inr (map (\<lambda>x. f x (hd ys)) xs)
      else Inl ShapeError)"

text \<open>\<open>A op B\<close> for two 2-d tensors, and \<open>A op v\<close> for a 2-d tensor and a 1-d tensor
  (the vector is aligned with the last dimension).\<close>

definition tensor_op2 :: "(fl \<Rightarrow> fl \<Rightarrow> fl) \<Rightarrow> fl list list \<Rightarrow> fl list list \<Rightarrow> error + fl list list" where
  "tensor_op2 f A B =
     (case bcast (bcast f) A B of Inl e \<Rightarrow> Inl e | Inr rows \<Rightarrow> sequence rows)"

definition tensor_op_row :: "(fl \<Rightarrow> fl \<Rightarrow> fl) \<Rightarrow> fl list list \<Rightarrow> fl list \<Rightarrow> error + fl list list" where
  "tensor_op_row f A v = sequence (map (\<lambda>row. bcast f row v) A)"

text \<open>\<open>torch.nan_to_num(cost, nan=100.0, posinf=100.0, neginf=-100.0)\<close>.\<close>

fun nan_to_num1 :: "fl \<Rightarrow> fl" where
  "nan_to_num1 NaN = Fin 100"
| "nan_to_num1 PInf = Fin 100"
| "nan_to_num1 NInf = Fin (- 100)"
| "nan_to_num1 (Fin r) = Fin r"

definition nan_to_num :: "fl list list \<Rightarrow> fl list list" where
  "nan_to_num C = map (map nan_to_num1) C"

text \<open>
  \<open>xs[is] = vs\<close> with an index tensor: the values must have the size of the index (or
  size 1), every index must be in range, and the writes happen in order, so that the last
  write to an index stays.
\<close>

definition index_put :: "'a list \<Rightarrow> nat list \<Rightarrow> 'a list \<Rightarrow> error + 'a list" where
  "index_put xs is vs =
     (if length vs \<noteq> length is \<and> length vs \<noteq> 1 then Inl ShapeError
      else if list_ex (\<lambda>i. length xs \<le> i) is then Inl IndexError
      else Inr (fold (\<lambda>(i, v) acc. acc[i := v])
                  (zip is (if length vs = length is then vs else replicate (length is) (hd vs))) xs))"

text \<open>\<open>xs[is]\<close> with an index tensor.\<close>

definition index_select :: "'a list \<Rightarrow> nat list \<Rightarrow> error + 'a list" where
  "index_select xs is =
     (if list_ex (\<lambda>i. length xs \<le> i) is then Inl IndexError else Inr (map (\<lambda>i. xs ! i) is))"

section \<open>HungarianAssigner3D\<close>

text \<open>
  What \<open>assign\<close> takes from outside this repository's sources: the float arithmetic of the
  tensor library, \<open>normalize_bbox\<close> (of \<open>core/bbox/util.py\<close>) and the module-level name
  \<open>linear_sum_assignment\<close>, which is \<open>None\<close> when importing scipy failed. The debug
  branch takes three more things: \<open>torch.cdist\<close>, the text that the f-string of line 86
  makes of the two sizes and the two distances, and the file system, that is, whether
  \<open>os.makedirs(path, exist_ok=True)\<close> and \<open>np.save(file, ...)\<close> succeed (they raise
  OSError otherwise).
\<close>

record env =
  fadd :: "fl \<Rightarrow> fl \<Rightarrow> fl"
  fmul :: "fl \<Rightarrow> fl \<Rightarrow> fl"
  normalize_bbox :: "fl list list \<Rightarrow> fl list option \<Rightarrow> fl list list"
  linear_sum_assignment :: "(fl list list \<Rightarrow> nat list \<times> nat list) option"
  cdist :: "fl list list \<Rightarrow> fl list list \<Rightarrow> fl list list"
  format_name :: "nat \<Rightarrow> nat \<Rightarrow> fl list \<Rightarrow> string"
  makedirs :: "string \<Rightarrow> bool"
  np_save :: "string \<Rightarrow> bool"

text \<open>The file written by the debug branch: its path and the entries of the saved dictionary.\<close>

record dump =
  d_file :: string
  d_cost :: "fl list list"
  d_dist :: "fl list list"
  d_assign :: "int list"
  d_gt_center :: "fl list list"
  d_pred_center :: "fl list list"

text \<open>
  The attribute \<open>debug\<close> is tested for its truth value and then used as the directory of
  the debug files: it is the flag \<open>False\<close> of the default configuration (or \<open>True\<close>), or a
  path. The empty path counts as false, like \<open>False\<close>.
\<close>

datatype debug_val = DebugFlag bool | DebugDir string

definition debug_on :: "debug_val \<Rightarrow> bool" where
  "debug_on d = (case d of DebugFlag b \<Rightarrow> b | DebugDir p \<Rightarrow> p \<noteq> [])"

text \<open>\<open>os.path.join(p, q)\<close> for two path components (POSIX).\<close>

definition path_join :: "string \<Rightarrow> string \<Rightarrow> string" where
  "path_join p q =
     (if q \<noteq> [] \<and> hd q = CHR ''/'' then q
      else if p = [] \<or> last p = CHR ''/'' then p @ q
      else p @ ''/'' @ q)"

text \<open>
  The assigner object. \<open>cls_cost\<close> and \<open>reg_cost\<close> are the match costs built from the
  configuration (\<open>iou_cost\<close> is built too, and never used by \<open>assign\<close>). \<open>level_stats\<close>
  holds the attributes \<open>level_<i>_stats\<close> as pairs (num_q_matched, num_prop_matched);
  \<open>saved\<close> is the list of debug files written so far.
\<close>

record assigner =
  cls_cost :: "fl list list \<Rightarrow> int list \<Rightarrow> fl list list"
  reg_cost :: "fl list list \<Rightarrow> fl list list \<Rightarrow> fl list list"
  pc_range :: "fl list option"
  debug :: debug_val
  stats_one2one_matching :: int
  layer_indicator :: int
  level_stats :: "int \<Rightarrow> (int \<times> int) option"
  saved :: "dump list"

text \<open>The arguments of \<open>assign\<close> (\<open>eps\<close> is never read and left out).\<close>

record assign_args =
  bbox_pred :: "fl list list"
  cls_pred :: "fl list list"
  gt_bboxes :: "fl list list"
  gt_labels :: "int list"
  gt_bboxes_ignore :: "fl list list option"
  code_weights :: "fl list option"
  with_velo :: bool

record AssignResult =
  num_gts :: nat
  gt_inds :: "int list"
  max_overlaps :: "fl list option"
  labels :: "int list option"

definition msg_ignore :: string where
  "msg_ignore = ''Only case when gt_bboxes_ignore is None is supported.''"

definition msg_scipy :: string where
  "msg_scipy = ''Please run \"pip install scipy\" to install scipy first.''"

text \<open>Step 2 of \<open>assign\<close>: the weighted inputs and the cost matrix.\<close>

definition weighted_inputs :: "env \<Rightarrow> assigner \<Rightarrow> assign_args \<Rightarrow> error + (fl list list \<times> fl list list)" where
  "weighted_inputs E a args =
     (let normalized_gt_bboxes = normalize_bbox E (gt_bboxes args) (pc_range a) in
      case code_weights args of
        None \<Rightarrow> Inr (bbox_pred args, normalized_gt_bboxes)
      | Some cw \<Rightarrow>
         (case tensor_op_row (fmul E) (bbox_pred args) cw of
            Inl e \<Rightarrow> Inl e
          | Inr bp \<Rightarrow>
             (case tensor_op_row (fmul E) normalized_gt_bboxes cw of
                Inl e \<Rightarrow> Inl e
              | Inr ng \<Rightarrow> Inr (bp, ng))))"

definition compute_cost :: "env \<Rightarrow> assigner \<Rightarrow> assign_args \<Rightarrow> error + (fl list list \<times> fl list list \<times> fl list list)" where
  "compute_cost E a args =
     (let cls = cls_cost a (cls_pred args) (gt_labels args) in
      case weighted_inputs E a args of
        Inl e \<Rightarrow> Inl e
      | Inr (bp, ng) \<Rightarrow>
         (let reg = (if with_velo args then reg_cost a bp ng
                     else reg_cost a (map (take 8) bp) (map (take 8) ng)) in
          case tensor_op2 (fadd E) cls reg of
            Inl e \<Rightarrow> Inl e
          | Inr cost \<Rightarrow> Inr (cost, bp, ng)))"

text \<open>\<open>t[:, [0, 1, 2]]\<close>: an index error when the tensor has fewer than three columns.\<close>

definition center3 :: "fl list list \<Rightarrow> error + fl list list" where
  "center3 t = sequence (map (\<lambda>row. index_select row [0, 1, 2]) t)"

text \<open>
  The debug branch, lines 78 to 101. The two centers are selected, their distances
  computed and the file name formatted from the first and the last distance (an index
  error when there is none); then the directory is made and the file saved.
  \<open>os.makedirs\<close> raises TypeError when \<open>debug\<close> is a flag and not a path, and both calls
  raise OSError when the file system refuses.
\<close>

definition debug_dump :: "env \<Rightarrow> assigner \<Rightarrow> fl list list \<Rightarrow> fl list list \<Rightarrow> fl list list \<Rightarrow> int list \<Rightarrow> error + assigner" where
  "debug_dump E a cost bp ng assigned =
     (if debug_on (debug a) then
        (case center3 bp of
           Inl e \<Rightarrow> Inl e
         | Inr pred_center \<Rightarrow>
            (case center3 ng of
               Inl e \<Rightarrow> Inl e
             | Inr gt_center \<Rightarrow>
                (let center_dist = cdist E pred_center gt_center;
                     flat = concat center_dist
                 in if flat = [] then Inl IndexError
                    else
                      let name = format_name E (length center_dist)
                                   (case center_dist of [] \<Rightarrow> 0 | row # _ \<Rightarrow> length row)
                                   [hd flat, last flat]
                      in case debug a of
                           DebugFlag _ \<Rightarrow> Inl TypeError
                         | DebugDir dir \<Rightarrow>
                            if \<not> makedirs E dir then Inl OSError
                            else
                              let file = path_join dir (name @ ''.npy'')
                              in if np_save E file then
                                   Inr (a\<lparr>saved := saved a @
                                         [\<lparr>d_file = file, d_cost = cost, d_dist = center_dist,
                                           d_assign = assigned, d_gt_center = gt_center,
                                           d_pred_center = pred_center\<rparr>]\<rparr>)
                                 else Inl OSError)))
      else Inr a)"

text \<open>The statistics branch after the matching (the printed line is left out).\<close>

definition update_stats :: "assigner \<Rightarrow> nat \<Rightarrow> nat list \<Rightarrow> assigner" where
  "update_stats a num_bboxes matched_row_inds =
     (if stats_one2one_matching a > 0 \<and> layer_indicator a > 0 then
        (let num_prop = stats_one2one_matching a;
             num_q = int num_bboxes - num_prop;
             num_q_matched = int (length (filter (\<lambda>r. int r < num_q) matched_row_inds));
             num_prop_matched = int (length matched_row_inds) - num_q_matched;
             name = layer_indicator a;
             stats = (case level_stats a name of None \<Rightarrow> (0, 0) | Some s \<Rightarrow> s);
             stats' = (fst stats + num_q_matched, snd stats + num_prop_matched)
         in a\<lparr>level_stats := (level_stats a)(name \<mapsto> stats'),
              layer_indicator := layer_indicator a + 1\<rparr>)
      else a)"

text \<open>Step 4 of \<open>assign\<close>: backgrounds first, then the foregrounds of the matching.\<close>

definition assign_fg :: "nat \<Rightarrow> int list \<Rightarrow> nat list \<Rightarrow> nat list \<Rightarrow> error + (int list \<times> int list)" where
  "assign_fg num_bboxes gt_lbls matched_row_inds matched_col_inds =
     (case index_put (replicate num_bboxes 0) matched_row_inds
             (map (\<lambda>c. int c + 1) matched_col_inds) of
        Inl e \<Rightarrow> Inl e
      | Inr assigned_gt_inds \<Rightarrow>
         (case index_select gt_lbls matched_col_inds of
            Inl e \<Rightarrow> Inl e
          | Inr picked \<Rightarrow>
             (case index_put (replicate num_bboxes (- 1)) matched_row_inds picked of
                Inl e \<Rightarrow> Inl e
              | Inr assigned_labels \<Rightarrow> Inr (assigned_gt_inds, assigned_labels))))"

definition assign :: "env \<Rightarrow> assigner \<Rightarrow> assign_args \<Rightarrow> error + (AssignResult \<times> assigner)" where
  "assign E a args =
     (if gt_bboxes_ignore args \<noteq> None then Inl (AssertionError msg_ignore)
      else
        let num_gts = length (gt_bboxes args); num_bboxes = length (bbox_pred args);
            assigned_gt_inds = replicate num_bboxes (- 1);
            assigned_labels = replicate num_bboxes (- 1)
        in
        if num_gts = 0 \<or> num_bboxes = 0 then
          Inr (\<lparr>num_gts = num_gts,
                gt_inds = (if num_gts = 0 then replicate num_bboxes 0 else assigned_gt_inds),
                max_overlaps = None, labels = Some assigned_labels\<rparr>, a)
        else
          case compute_cost E a args of
            Inl e \<Rightarrow> Inl e
          | Inr (cost, bp, ng) \<Rightarrow>
             (case debug_dump E a cost bp ng assigned_gt_inds of
                Inl e \<Rightarrow> Inl e
              | Inr a1 \<Rightarrow>
                 (case linear_sum_assignment E of
                    None \<Rightarrow> Inl (ImportError msg_scipy)
                  | Some lsa \<Rightarrow>
                     (let (matched_row_inds, matched_col_inds) = lsa (nan_to_num cost);
                          a2 = update_stats a1 num_bboxes matched_row_inds
                      in case assign_fg num_bboxes (gt_labels args)
                                matched_row_inds matched_col_inds of
                           Inl e \<Rightarrow> Inl e
                         | Inr (inds, lbls) \<Rightarrow>
                            Inr (\<lparr>num_gts = num_gts, gt_inds = inds,
                                  max_overlaps = None, labels = Some lbls\<rparr>, a2)))))"

section \<open>Matchings\<close>

text \<open>
  The contract of the matcher, in the terms of \<open>assign\<close>: the two index arrays have one
  length and are in range (\<open>matcher_ok\<close>); a one-to-one matching of full size between
  \<open>n\<close> predictions and \<open>m\<close> ground truths (\<open>matching\<close>); its summed cost over a matrix
  of finite entries; and a matching of least summed cost (\<open>optimal_matching\<close>).
\<close>

definition is_matrix :: "nat \<Rightarrow> nat \<Rightarrow> 'a list list \<Rightarrow> bool" where
  "is_matrix n m A = (length A = n \<and> list_all (\<lambda>row. length row = m) A)"

definition all_finite :: "fl list list \<Rightarrow> bool" where
  "all_finite C = list_all (list_all is_finite) C"

definition matcher_ok :: "nat \<Rightarrow> nat \<Rightarrow> nat list \<times> nat list \<Rightarrow> bool" where
  "matcher_ok n m rc =
     (length (fst rc) = length (snd rc) \<and> list_all (\<lambda>r. r < n) (fst rc) \<and>
      list_all (\<lambda>c. c < m) (snd rc))"

definition matching :: "nat \<Rightarrow> nat \<Rightarrow> (nat \<times> nat) list \<Rightarrow> bool" where
  "matching n m ps =
     (length ps = min n m \<and> distinct (map fst ps) \<and> distinct (map snd ps) \<and>
      list_all (\<lambda>p. fst p < n \<and> snd p < m) ps)"

definition total_cost :: "fl list list \<Rightarrow> (nat \<times> nat) list \<Rightarrow> rat" where
  "total_cost C ps = sum_list (map (\<lambda>p. fl_val (C ! fst p ! snd p)) ps)"

definition optimal_matching :: "fl list list \<Rightarrow> nat \<Rightarrow> nat \<Rightarrow> (nat \<times> nat) list \<Rightarrow> bool" where
  "optimal_matching C n m ps =
     (matching n m ps \<and> (\<forall>qs. matching n m qs \<longrightarrow> total_cost C ps \<le> total_cost C qs))"

text \<open>
  The contract of scipy's \<open>linear_sum_assignment\<close> as its documentation states it, for a
  cost matrix of finite entries with at least one row and one column: the row and column
  indices of an assignment of least summed cost.
\<close>

definition lsa_contract :: "(fl list list \<Rightarrow> nat list \<times> nat list) \<Rightarrow> bool" where
  "lsa_contract lsa =
     (\<forall>n m C. 0 < n \<and> 0 < m \<and> is_matrix n m C \<and> all_finite C \<longrightarrow>
        length (fst (lsa C)) = length (snd (lsa C)) \<and>
        optimal_matching C n m (zip (fst (lsa C)) (snd (lsa C))))"

text \<open>The pairs (prediction, ground truth) that an assignment result encodes.\<close>

definition matched_pairs :: "int list \<Rightarrow> (nat \<times> nat) list" where
  "matched_pairs inds =
     map (\<lambda>i. (i, nat (inds ! i - 1))) (filter (\<lambda>i. 1 \<le> inds ! i) [0..<length inds])"

text \<open>The foreground entries of \<open>assigned_gt_inds\<close>.\<close>

definition foreground :: "int list \<Rightarrow> int list" where
  "foreground inds = filter (\<lambda>x. 1 \<le> x) inds"

text \<open>A sequence of indexed writes, the core of \<open>index_put\<close>.\<close>

definition put :: "'a list \<Rightarrow> (nat \<times> 'a) list \<Rightarrow> 'a list" where
  "put xs ps = fold (\<lambda>(i, v) acc. acc[i := v]) ps xs"

section \<open>Reference operations and example data\<close>

text \<open>
  To run the model on concrete inputs the parameters need values. The arithmetic below is
  exact (no rounding) and follows IEEE for the special values; the two match costs are
  simple stand-ins of the configured ones.
\<close>

fun fl_add :: "fl \<Rightarrow> fl \<Rightarrow> fl" where
  "fl_add NaN _ = NaN"
| "fl_add _ NaN = NaN"
| "fl_add PInf NInf = NaN"
| "fl_add NInf PInf = NaN"
| "fl_add PInf _ = PInf"
| "fl_add _ PInf = PInf"
| "fl_add NInf _ = NInf"
| "fl_add _ NInf = NInf"
| "fl_add (Fin a) (Fin b) = Fin (a + b)"

fun fl_neg :: "fl \<Rightarrow> fl" where
  "fl_neg NaN = NaN"
| "fl_neg PInf = NInf"
| "fl_neg NInf = PInf"
| "fl_neg (Fin a) = Fin (- a)"

fun fl_mul :: "fl \<Rightarrow> fl \<Rightarrow> fl" where
  "fl_mul NaN _ = NaN"
| "fl_mul _ NaN = NaN"
| "fl_mul (Fin a) (Fin b) = Fin (a * b)"
| "fl_mul (Fin a) x = (if a = 0 then NaN else if 0 < a then x else fl_neg x)"
| "fl_mul x (Fin b) = (if b = 0 then NaN else if 0 < b then x else fl_neg x)"
| "fl_mul PInf PInf = PInf"
| "fl_mul NInf NInf = PInf"
| "fl_mul PInf NInf = NInf"
| "fl_mul NInf PInf = NInf"

definition ex_cls_cost :: "fl list list \<Rightarrow> int list \<Rightarrow> fl list list" where
  "ex_cls_cost P L =
     map (\<lambda>p. map (\<lambda>l. if 0 \<le> l \<and> nat l < length p then fl_neg (p ! nat l) else NaN) L) P"

definition ex_reg_cost :: "fl list list \<Rightarrow> fl list list \<Rightarrow> fl list list" where
  "ex_reg_cost P G =
     map (\<lambda>p. map (\<lambda>g. foldr fl_add (map2 (\<lambda>x y. Fin \<bar>fl_val x - fl_val y\<bar>) p g) (Fin 0)) G) P"

text \<open>The stand-in of \<open>cdist\<close> is the distance along the first axis; every directory can be
  made and every file written.\<close>

definition ex_cdist :: "fl list list \<Rightarrow> fl list list \<Rightarrow> fl list list" where
  "ex_cdist P G = map (\<lambda>p. map (\<lambda>g. Fin \<bar>fl_val (hd p) - fl_val (hd g)\<bar>) G) P"

definition ex_env :: "(fl list list \<Rightarrow> nat list \<times> nat list) option \<Rightarrow> env" where
  "ex_env lsa = \<lparr>fadd = fl_add, fmul = fl_mul, normalize_bbox = (\<lambda>b r. b),
                 linear_sum_assignment = lsa, cdist = ex_cdist,
                 format_name = (\<lambda>n m ds. ''dist''), makedirs = (\<lambda>p. True),
                 np_save = (\<lambda>f. True)\<rparr>"

definition ex_assigner :: assigner where
  "ex_assigner = \<lparr>cls_cost = ex_cls_cost, reg_cost = ex_reg_cost, pc_range = None,
                   debug = DebugFlag False, stats_one2one_matching = 0, layer_indicator = 0,
                   level_stats = Map.empty, saved = []\<rparr>"

definition ex_box :: "rat \<Rightarrow> fl list" where
  "ex_box x = map Fin [x, 0, 0, 0, 0, 0, 0, 1, 0, 0]"

definition ex_args :: "fl list list \<Rightarrow> fl list list \<Rightarrow> fl list list \<Rightarrow> int list \<Rightarrow> assign_args" where
  "ex_args bp cp gb gl =
     \<lparr>bbox_pred = bp, cls_pred = cp, gt_bboxes = gb, gt_labels = gl,
      gt_bboxes_ignore = None, code_weights = None, with_velo = False\<rparr>"

text \<open>
  A reference matcher by exhaustive search: every injection of the smaller side into the
  larger one is tried and the first of least summed cost is returned, rows ascending.
\<close>

fun injections :: "nat \<Rightarrow> nat list \<Rightarrow> nat list list" where
  "injections 0 xs = [[]]"
| "injections (Suc k) xs = concat (map (\<lambda>x. map ((#) x) (injections k (remove1 x xs))) xs)"

fun first_min :: "('a \<Rightarrow> rat) \<Rightarrow> 'a \<Rightarrow> 'a list \<Rightarrow> 'a" where
  "first_min f b [] = b"
| "first_min f b (x # xs) = first_min f (if f x < f b then x else b) xs"

definition lsa_brute :: "fl list list \<Rightarrow> nat list \<times> nat list" where
  "lsa_brute C =
     (let n = length C; m = (case C of [] \<Rightarrow> 0 | row # _ \<Rightarrow> length row);
          cands = (if n \<le> m then map (\<lambda>cs. zip [0..<n] cs) (injections n [0..<m])
                   else map (\<lambda>rs. sort_key fst (zip rs [0..<m])) (injections m [0..<n]));
          best = (case cands of [] \<Rightarrow> [] | c # cs \<Rightarrow> first_min (total_cost C) c cs)
      in (map fst best, map snd best))"

text \<open>A matcher that only answers on matrices of finite entries.\<close>

definition lsa_finite_only :: "fl list list \<Rightarrow> nat list \<times> nat list" where
  "lsa_finite_only C = (if all_finite C then lsa_brute C else ([], []))"

text \<open>Two predictions at x = 5 and x = 2, one ground truth at x = 1 of class 0.\<close>

definition ex_two_one :: assign_args where
  "ex_two_one = ex_args [ex_box 5, ex_box 2] [[Fin 0], [Fin 0]] [ex_box 1] [0]"

text \<open>
  Three predictions at x = 2, 4 and 20, the last with a NaN score, and two ground truths
  at x = 3 and x = 0 of class 0. Taking for each prediction in turn its nearest free
  ground truth gives the summed cost 1 + 4; the least summed cost is 2 + 1.
\<close>

definition ex_three_two :: assign_args where
  "ex_three_two = ex_args [ex_box 2, ex_box 4, ex_box 20] [[Fin 0], [Fin 0], [NaN]]
                    [ex_box 3, ex_box 0] [0, 0]"

section \<open>NMSFreeCoder\<close>

text \<open>
  What \<open>decode_single\<close> takes from outside this repository's sources: \<open>sigmoid\<close> and
  \<open>topk\<close> of the tensor library and \<open>denormalize_bbox\<close> (of \<open>core/bbox/util.py\<close>).
  \<open>topk xs k\<close> returns the values and the indices of the selection.
\<close>

record coder_env =
  sigmoid :: "fl \<Rightarrow> fl"
  topk :: "fl list \<Rightarrow> nat \<Rightarrow> fl list \<times> nat list"
  denormalize_bbox :: "fl list list \<Rightarrow> fl list \<Rightarrow> fl list list"

record NMSFreeCoder =
  pc_range :: "fl list"
  voxel_size :: "fl list option"
  post_center_range :: "fl list option"
  max_num :: int
  score_threshold :: "fl option"
  num_classes :: int

text \<open>The values of the returned dictionary: float tensors of one and two dimensions and
  integer tensors.\<close>

datatype tensor = T1 "fl list" | T2 "fl list list" | TI "int list"

definition msg_batch :: string where
  "msg_batch = ''Need to reorganize output as a batch, only support post_center_range is not None for now!''"

text \<open>Python's truth value of \<open>self.score_threshold\<close>: None and 0.0 are false.\<close>

definition truthy :: "fl option \<Rightarrow> bool" where
  "truthy t = (case t of None \<Rightarrow> False | Some x \<Rightarrow> x \<noteq> Fin 0)"

text \<open>\<open>xs[js]\<close> with an integer index tensor: negative indices count from the end.\<close>

definition index_select_int :: "'a list \<Rightarrow> int list \<Rightarrow> error + 'a list" where
  "index_select_int xs js =
     (if list_ex (\<lambda>j. j < - int (length xs) \<or> int (length xs) \<le> j) js then Inl IndexError
      else Inr (map (\<lambda>j. xs ! nat (if j < 0 then j + int (length xs) else j)) js))"

text \<open>\<open>xs[mask]\<close> with a boolean mask of the same length (\<open>msk\<close> below, as \<open>mask\<close> is a
  constant of the library).\<close>

definition mask_select :: "'a list \<Rightarrow> bool list \<Rightarrow> 'a list" where
  "mask_select xs msk = map fst (filter snd (zip xs msk))"

text \<open>Lines 53 to 57: the sigmoid scores, flattened, and the top \<open>max_num\<close> of them.\<close>

definition select_topk :: "coder_env \<Rightarrow> NMSFreeCoder \<Rightarrow> fl list list \<Rightarrow> error + (fl list \<times> nat list)" where
  "select_topk L c cls_scores =
     (let flat = concat (map (map (sigmoid L)) cls_scores);
          k = min (int (length flat)) (max_num c)
      in if k < 0 then Inl RuntimeError else Inr (topk L flat (nat k)))"

text \<open>Lines 58 and 59: label and box index of every flattened index. The remainder and
  the floor division of the tensor library are those of Python.\<close>

definition split_index :: "NMSFreeCoder \<Rightarrow> nat list \<Rightarrow> error + (int list \<times> int list)" where
  "split_index c indexs =
     (if num_classes c = 0 then Inl ZeroDivisionError
      else Inr (map (\<lambda>i. int i mod num_classes c) indexs,
                map (\<lambda>i. int i div num_classes c) indexs))"

text \<open>
  \<open>(boxes[..., :3] >= r[:3]).all(1) & (boxes[..., :3] <= r[3:]).all(1)\<close>. With no box at
  all the number of columns is not known in a list of rows, and no shape error shows.
\<close>

definition range_mask :: "fl list list \<Rightarrow> fl list \<Rightarrow> error + bool list" where
  "range_mask boxes r =
     (case sequence (map (\<lambda>b. bcast fl_ge (take 3 b) (take 3 r)) boxes) of
        Inl e \<Rightarrow> Inl e
      | Inr lo \<Rightarrow>
         (case sequence (map (\<lambda>b. bcast fl_le (take 3 b) (drop 3 r)) boxes) of
            Inl e \<Rightarrow> Inl e
          | Inr hi \<Rightarrow> Inr (map2 (\<lambda>l h. list_all id l \<and> list_all id h) lo hi)))"

definition decode_single :: "coder_env \<Rightarrow> NMSFreeCoder \<Rightarrow> fl list list \<Rightarrow> fl list list \<Rightarrow> error + (string \<rightharpoonup> tensor)" where
  "decode_single L c cls_scores bbox_preds =
     (case select_topk L c cls_scores of
        Inl e \<Rightarrow> Inl e
      | Inr (scores, indexs) \<Rightarrow>
         (case split_index c indexs of
            Inl e \<Rightarrow> Inl e
          | Inr (lbls, bbox_index) \<Rightarrow>
             (case index_select_int bbox_preds bbox_index of
                Inl e \<Rightarrow> Inl e
              | Inr picked \<Rightarrow>
                 (let final_box_preds = denormalize_bbox L picked (pc_range c);
                      final_scores = scores;
                      final_preds = lbls;
                      thresh_mask = (case score_threshold c of
                                       None \<Rightarrow> None
                                     | Some t \<Rightarrow> Some (map (\<lambda>s. fl_ge s t) final_scores))
                  in case post_center_range c of
                       Some r \<Rightarrow>
                        (case range_mask final_box_preds r of
                           Inl e \<Rightarrow> Inl e
                         | Inr mask0 \<Rightarrow>
                            (case (if truthy (score_threshold c)
                                   then (case thresh_mask of
                                           None \<Rightarrow> Inl RuntimeError
                                         | Some tm \<Rightarrow> bcast (\<and>) mask0 tm)
                                   else Inr mask0) of
                               Inl e \<Rightarrow> Inl e
                             | Inr msk \<Rightarrow>
                                (if length msk \<noteq> length final_box_preds \<or>
                                    length msk \<noteq> length final_scores \<or>
                                    length msk \<noteq> length final_preds
                                 then Inl IndexError
                                 else Inr [''bboxes'' \<mapsto> T2 (mask_select final_box_preds msk),
                                           ''scores'' \<mapsto> T1 (mask_select final_scores msk),
                                           ''labels'' \<mapsto> TI (mask_select final_preds msk)])))
                     | None \<Rightarrow> Inl (NotImplementedError msg_batch)))))"

text \<open>\<open>decode\<close> on the scores and boxes of the last decoder layer, one sample after the
  other; an exception of \<open>decode_single\<close> is not caught.\<close>

definition last_layer :: "'a list \<Rightarrow> error + 'a" where
  "last_layer xs = (if xs = [] then Inl IndexError else Inr (last xs))"

definition decode :: "coder_env \<Rightarrow> NMSFreeCoder \<Rightarrow> fl list list list list \<Rightarrow> fl list list list list \<Rightarrow> error + (string \<rightharpoonup> tensor) list" where
  "decode L c all_cls all_bbox =
     (case last_layer all_cls of
        Inl e \<Rightarrow> Inl e
      | Inr all_cls_scores \<Rightarrow>
         (case last_layer all_bbox of
            Inl e \<Rightarrow> Inl e
          | Inr all_bbox_preds \<Rightarrow>
             sequence (map (\<lambda>i. if i < length all_bbox_preds
                                 then decode_single L c (all_cls_scores ! i) (all_bbox_preds ! i)
                                 else Inl IndexError)
                        [0..<length all_cls_scores])))"

text \<open>The contract of \<open>topk\<close> that \<open>decode_single\<close> relies on: \<open>k\<close> values with their
  indices, which are in range and pairwise distinct.\<close>

definition topk_ok :: "fl list \<Rightarrow> nat \<Rightarrow> fl list \<times> nat list \<Rightarrow> bool" where
  "topk_ok xs k r =
     (length (fst r) = k \<and> length (snd r) = k \<and> distinct (snd r) \<and>
      list_all (\<lambda>i. i < length xs) (snd r) \<and> fst r = map (\<lambda>i. xs ! i) (snd r))"

text \<open>
  Well-formed inputs of \<open>decode_single\<close>: \<open>max_num\<close> is not negative, \<open>num_classes\<close> is
  positive and at least the number of score channels per query (every box index is in
  range), and \<open>topk\<close> keeps its contract on the scores. \<open>denormalize_bbox\<close> maps boxes to
  boxes, one for one, and keeps at least three columns.
\<close>

definition decode_inputs_ok :: "coder_env \<Rightarrow> NMSFreeCoder \<Rightarrow> fl list list \<Rightarrow> fl list list \<Rightarrow> bool" where
  "decode_inputs_ok L c cls_scores bbox_preds =
     (let flat = concat (map (map (sigmoid L)) cls_scores);
          k = nat (min (int (length flat)) (max_num c))
      in 0 \<le> max_num c \<and> 0 < num_classes c \<and>
         int (length flat) \<le> num_classes c * int (length bbox_preds) \<and>
         topk_ok flat k (topk L flat k))"

definition denormalize_ok :: "coder_env \<Rightarrow> NMSFreeCoder \<Rightarrow> bool" where
  "denormalize_ok L c =
     (\<forall>bs. length (denormalize_bbox L bs (pc_range c)) = length bs \<and>
           (list_all (\<lambda>b. 3 \<le> length b) bs \<longrightarrow>
            list_all (\<lambda>b. 3 \<le> length b) (denormalize_bbox L bs (pc_range c))))"

text \<open>A reference \<open>topk\<close> by insertion sort, NaN first, and a stand-in of \<open>sigmoid\<close> that is
  exact on the special values.\<close>

fun fl_before :: "fl \<Rightarrow> fl \<Rightarrow> bool" where
  "fl_before NaN _ = True"
| "fl_before _ NaN = False"
| "fl_before a b = fl_ge a b"

fun insert_desc :: "fl \<times> nat \<Rightarrow> (fl \<times> nat) list \<Rightarrow> (fl \<times> nat) list" where
  "insert_desc p [] = [p]"
| "insert_desc p (q # qs) = (if fl_before (fst p) (fst q) then p # q # qs else q # insert_desc p qs)"

definition topk_ref :: "fl list \<Rightarrow> nat \<Rightarrow> fl list \<times> nat list" where
  "topk_ref xs k =
     (let s = take k (foldr insert_desc (zip xs [0..<length xs]) [])
      in (map fst s, map snd s))"

fun ex_sigmoid :: "fl \<Rightarrow> fl" where
  "ex_sigmoid NaN = NaN"
| "ex_sigmoid PInf = Fin 1"
| "ex_sigmoid NInf = Fin 0"
| "ex_sigmoid (Fin r) = Fin (1 / 2 + r / (2 * (1 + \<bar>r\<bar>)))"

definition ex_coder_env :: coder_env where
  "ex_coder_env = \<lparr>sigmoid = ex_sigmoid, topk = topk_ref, denormalize_bbox = (\<lambda>b r. b)\<rparr>"

definition ex_coder :: "fl list option \<Rightarrow> fl option \<Rightarrow> int \<Rightarrow> NMSFreeCoder" where
  "ex_coder r t n =
     \<lparr>pc_range = map Fin [- 50, - 50, - 5, 50, 50, 3], voxel_size = None,
      post_center_range = r, max_num = 100, score_threshold = t, num_classes = n\<rparr>"

definition ex_range :: "fl list" where
  "ex_range = map Fin [- 60, - 60, - 10, 60, 60, 10]"

text \<open>Two queries with two classes each; the box of the second query is out of range.\<close>

definition ex_cls_scores :: "fl list list" where
  "ex_cls_scores = [[Fin 1, Fin (- 1)], [Fin 3, Fin 0]]"

definition ex_bbox_preds :: "fl list list" where
  "ex_bbox_preds = [ex_box 0, ex_box 70]"

section \<open>MV2DFusionTransformerDecoder\<close>

text \<open>
  \<open>target[mask] = values\<close> for a target of shape (B, N, D), a boolean mask of shape
  (B, N) and values of two dimensions. The mask must have the shape of the leading
  dimensions of the target (an index error otherwise). The values are broadcast to the
  shape (number of true positions, D): there must be as many rows of values as true
  positions, or just one, which is then repeated, and every row must have D entries, or
  just one, which is then repeated; anything else is a shape error. The rows then go to
  the positions where the mask is true, in row-major order. A target without any row
  does not show its D in this representation: no width is checked for it, and nothing
  is written to it.
\<close>

definition widen :: "nat \<Rightarrow> 'a list \<Rightarrow> 'a list" where
  "widen d v = (if length v = d then v else replicate d (hd v))"

fun masked_put :: "'a list list \<Rightarrow> bool list \<Rightarrow> 'a list list \<Rightarrow> 'a list list" where
  "masked_put (x # xs) (m # ms) vs =
     (if m then (case vs of [] \<Rightarrow> x | v # _ \<Rightarrow> widen (length x) v) # masked_put xs ms (tl vs)
      else x # masked_put xs ms vs)"
| "masked_put xs _ _ = xs"

definition count_true :: "bool list \<Rightarrow> nat" where
  "count_true ms = length (filter id ms)"

fun masked_put2 :: "'a list list list \<Rightarrow> bool list list \<Rightarrow> 'a list list \<Rightarrow> 'a list list list" where
  "masked_put2 (r # rs) (m # ms) vs =
     masked_put r m vs # masked_put2 rs ms (drop (count_true m) vs)"
| "masked_put2 rs _ _ = rs"

definition widths_ok :: "'a list list list \<Rightarrow> 'a list list \<Rightarrow> bool" where
  "widths_ok T vs =
     list_all (\<lambda>x. list_all (\<lambda>v. length v = length x \<or> length v = 1) vs) (concat T)"

definition masked_assign :: "'a list list list \<Rightarrow> bool list list \<Rightarrow> 'a list list \<Rightarrow> error + 'a list list list" where
  "masked_assign T M vs =
     (if map length T \<noteq> map length M then Inl IndexError
      else let t = count_true (concat M) in
        if (length vs \<noteq> t \<and> length vs \<noteq> 1) \<or> \<not> widths_ok T vs then Inl ShapeError
        else Inr (masked_put2 T M (if length vs = t then vs else replicate t (hd vs))))"

type_synonym tensor2 = "fl list list"
type_synonym tensor3 = "fl list list list"

text \<open>
  The tensor operations of \<open>forward\<close>, taken from the tensor library: \<open>log\<close>, \<open>+\<close>,
  \<open>softmax(-1)\<close>, the weighted sum \<open>(probs[:, None] @ coords)[:, 0]\<close> and the selection
  \<open>query.transpose(0, 1)[dyn_q_mask]\<close>.
\<close>

record tensor_ops =
  t_log :: "tensor2 \<Rightarrow> tensor2"
  t_add :: "tensor2 \<Rightarrow> tensor2 \<Rightarrow> tensor2"
  t_softmax :: "tensor2 \<Rightarrow> tensor2"
  t_weighted :: "tensor2 \<Rightarrow> tensor3 \<Rightarrow> tensor2"
  t_select :: "tensor3 \<Rightarrow> bool list list \<Rightarrow> tensor2"

text \<open>
  The decoder object. A layer maps the query, \<open>query_pos\<close> and \<open>prev_ref_point\<close> to the new
  query (its other arguments are fixed). \<open>reference_points\<close> and \<open>query_pos\<close> are kept in the
  layout (batch, query, ...) of the mask; the two transpositions around the update of
  \<open>query_pos\<close> are not modelled.
\<close>

record decoder =
  layers :: "(tensor3 \<Rightarrow> tensor3 \<Rightarrow> tensor3 \<Rightarrow> tensor3) list"
  post_norm :: "(tensor3 \<Rightarrow> tensor3) option"
  return_intermediate :: bool

record forward_args =
  query :: tensor3
  query_pos :: tensor3
  reference_points :: tensor3
  dyn_q_coords :: tensor3
  dyn_q_probs :: tensor2
  dyn_q_mask :: "bool list list"
  dyn_q_pos_branch :: "tensor3 \<Rightarrow> tensor2"
  dyn_q_pos_with_prob_branch :: "tensor2 \<Rightarrow> tensor2 \<Rightarrow> tensor2"
  dyn_q_prob_branch :: "(tensor2 \<Rightarrow> tensor2) list"

text \<open>The variables of the loop of \<open>forward\<close>.\<close>

record loop_state =
  s_query :: tensor3
  s_query_pos :: tensor3
  s_reference_points :: tensor3
  s_dyn_q_logits :: tensor2
  intermediate :: "tensor3 list"
  intermediate_reference_points :: "tensor3 list"
  intermediate_dyn_q_logits :: "tensor2 list"

text \<open>One pass of the loop body, for layer number \<open>i\<close>.\<close>

definition forward_step :: "tensor_ops \<Rightarrow> decoder \<Rightarrow> forward_args \<Rightarrow> nat \<Rightarrow> (tensor3 \<Rightarrow> tensor3 \<Rightarrow> tensor3 \<Rightarrow> tensor3) \<Rightarrow> loop_state \<Rightarrow> error + loop_state" where
  "forward_step ops D A i layer s =
     (let query' = layer (s_query s) (s_query_pos s) (s_reference_points s);
          interm_q = (case post_norm D of Some nrm \<Rightarrow> nrm query' | None \<Rightarrow> query')
      in if length (dyn_q_prob_branch A) \<le> i then Inl IndexError
         else
           let dyn_q_logits_res = (dyn_q_prob_branch A ! i) (t_select ops query' (dyn_q_mask A));
               dyn_q_logits' = t_add ops (s_dyn_q_logits s) dyn_q_logits_res;
               dyn_q_probs' = t_softmax ops dyn_q_logits';
               dyn_q_ref = t_weighted ops dyn_q_probs' (dyn_q_coords A)
           in case masked_assign (s_reference_points s) (dyn_q_mask A) dyn_q_ref of
                Inl e \<Rightarrow> Inl e
              | Inr new_reference_points \<Rightarrow>
                 (let dyn_q_pos = dyn_q_pos_with_prob_branch A
                                    (dyn_q_pos_branch A (dyn_q_coords A)) dyn_q_probs'
                  in case masked_assign (s_query_pos s) (dyn_q_mask A) dyn_q_pos of
                       Inl e \<Rightarrow> Inl e
                     | Inr new_query_pos \<Rightarrow>
                        Inr (if return_intermediate D then
                               s\<lparr>s_query := query', s_query_pos := new_query_pos,
                                 s_reference_points := new_reference_points,
                                 s_dyn_q_logits := dyn_q_logits',
                                 intermediate := intermediate s @ [interm_q],
                                 intermediate_reference_points :=
                                   intermediate_reference_points s @ [new_reference_points],
                                 intermediate_dyn_q_logits :=
                                   intermediate_dyn_q_logits s @ [dyn_q_logits']\<rparr>
                             else
                               s\<lparr>s_query := query', s_query_pos := new_query_pos,
                                 s_reference_points := new_reference_points,
                                 s_dyn_q_logits := dyn_q_logits'\<rparr>)))"

fun forward_loop :: "tensor_ops \<Rightarrow> decoder \<Rightarrow> forward_args \<Rightarrow> nat \<Rightarrow> (tensor3 \<Rightarrow> tensor3 \<Rightarrow> tensor3 \<Rightarrow> tensor3) list \<Rightarrow> loop_state \<Rightarrow> error + loop_state" where
  "forward_loop ops D A i [] s = Inr s"
| "forward_loop ops D A i (layer # ls) s =
     (case forward_step ops D A i layer s of
        Inl e \<Rightarrow> Inl e
      | Inr s' \<Rightarrow> forward_loop ops D A (Suc i) ls s')"

text \<open>\<open>forward\<close>: the assertion, the loop over the layers, and the three stacks; stacking an
  empty list is an error of the tensor library.\<close>

definition forward :: "tensor_ops \<Rightarrow> decoder \<Rightarrow> forward_args \<Rightarrow> error + (tensor3 list \<times> tensor3 list \<times> tensor2 list)" where
  "forward ops D A =
     (if \<not> return_intermediate D then Inl (AssertionError [])
      else
        case forward_loop ops D A 0 (layers D)
               \<lparr>s_query = query A, s_query_pos = query_pos A,
                s_reference_points = reference_points A,
                s_dyn_q_logits = t_log ops (dyn_q_probs A),
                intermediate = [], intermediate_reference_points = [reference_points A],
                intermediate_dyn_q_logits = []\<rparr> of
          Inl e \<Rightarrow> Inl e
        | Inr s \<Rightarrow>
           (if intermediate s = [] \<or> intermediate_dyn_q_logits s = [] then Inl RuntimeError
            else Inr (intermediate s, intermediate_reference_points s,
                      intermediate_dyn_q_logits s)))"

text \<open>
  The reference points of one refinement step: \<open>next\<close> is \<open>prev\<close> with the weighted
  coordinates, for the probabilities of the logits \<open>lg\<close>, written at the masked positions.
\<close>

definition refined :: "tensor_ops \<Rightarrow> forward_args \<Rightarrow> tensor3 \<Rightarrow> tensor2 \<Rightarrow> tensor3 \<Rightarrow> bool" where
  "refined ops A prev lg next =
     (masked_assign prev (dyn_q_mask A)
        (t_weighted ops (t_softmax ops lg) (dyn_q_coords A)) = Inr next)"

text \<open>Stand-ins of the tensor operations and of a layer, and a batch of one sample with
  three queries, the second of which is dynamic.\<close>

definition ex_ops :: tensor_ops where
  "ex_ops = \<lparr>t_log = (\<lambda>p. p), t_add = map2 (map2 fl_add), t_softmax = (\<lambda>l. l),
             t_weighted = (\<lambda>p c. map2 (\<lambda>w pts. foldr (map2 fl_add)
                                        (map2 (\<lambda>x pt. map (fl_mul x) pt) w pts)
                                        [Fin 0, Fin 0, Fin 0]) p c),
             t_select = (\<lambda>q m. mask_select (concat q) (concat m))\<rparr>"

definition ex_decoder :: decoder where
  "ex_decoder = \<lparr>layers = [\<lambda>q qp rp. q, \<lambda>q qp rp. q], post_norm = None,
                 return_intermediate = True\<rparr>"

definition ex_forward_args :: forward_args where
  "ex_forward_args =
     \<lparr>query = [[[Fin 1], [Fin 2], [Fin 3]]],
      query_pos = [[[Fin 0], [Fin 0], [Fin 0]]],
      reference_points = [[map Fin [1, 1, 1], map Fin [2, 2, 2], map Fin [3, 3, 3]]],
      dyn_q_coords = [[map Fin [4, 0, 0], map Fin [0, 4, 0]]],
      dyn_q_probs = [[Fin (1 / 2), Fin (1 / 2)]],
      dyn_q_mask = [[False, True, False]],
      dyn_q_pos_branch = (\<lambda>c. map concat c),
      dyn_q_pos_with_prob_branch = (\<lambda>x p. map (take 1) x),
      dyn_q_prob_branch = [\<lambda>d. [[Fin 0, Fin 0]], \<lambda>d. [[Fin 0, Fin 0]]]\<rparr>"

section \<open>Errors of the tensor operations\<close>

lemma sequence_Inl: "sequence rs = Inl e \<Longrightarrow> Inl e \<in> set rs"
  by (induction rs rule: sequence.induct) (auto split: sum.splits)

lemma bcast_err: "bcast f xs ys = Inl e \<Longrightarrow> e = ShapeError"
  by (auto simp: bcast_def split: if_splits)






section \<open>Indexed writes and the steps of assign\<close>

lemma put_Nil [simp]: "put xs [] = xs"
  by (simp add: put_def)

lemma put_Cons [simp]: "put xs ((i, v) # ps) = put (xs[i := v]) ps"
  by (simp add: put_def)

lemma length_put [simp]: "length (put xs ps) = length xs"
  by (induction ps arbitrary: xs) auto

lemma put_other: "i \<notin> fst ` set ps \<Longrightarrow> put xs ps ! i = xs ! i"
  by (induction ps arbitrary: xs) auto

lemma put_hit:
  "distinct (map fst ps) \<Longrightarrow> (i, v) \<in> set ps \<Longrightarrow> i < length xs \<Longrightarrow> put xs ps ! i = v"
proof (induction ps arbitrary: xs)
  case Nil
  then show ?case by simp
next
  case (Cons p ps)
  obtain j w where p: "p = (j, w)" by (cases p)
  show ?case
  proof (cases "(i, v) = p")
    case True
    with Cons.prems p have "i \<notin> fst ` set ps" by auto
    then have "put (xs[j := w]) ps ! i = (xs[j := w]) ! i" by (rule put_other)
    with True p Cons.prems(3) show ?thesis by simp
  next
    case False
    with Cons.prems have "(i, v) \<in> set ps" by simp
    with Cons.IH [of "xs[j := w]"] Cons.prems p show ?thesis by simp
  qed
qed

lemma index_put_ok:
  assumes "length vs = length is" and "\<forall>i\<in>set is. i < length xs"
  shows "index_put xs is vs = Inr (put xs (zip is vs))"
  using assms by (auto simp: index_put_def put_def list_ex_iff)

lemma index_select_ok:
  assumes "\<forall>i\<in>set is. i < length xs"
  shows "index_select xs is = Inr (map (\<lambda>i. xs ! i) is)"
  using assms by (auto simp: index_select_def list_ex_iff)

lemma assign_fg_ok:
  assumes "length rows = length cols"
    and "\<forall>r\<in>set rows. r < n" and "\<forall>c\<in>set cols. c < length gl"
  shows "assign_fg n gl rows cols =
           Inr (put (replicate n 0) (zip rows (map (\<lambda>c. int c + 1) cols)),
                put (replicate n (- 1)) (zip rows (map (\<lambda>c. gl ! c) cols)))"
  using assms by (simp add: assign_fg_def index_put_ok index_select_ok)

lemma assign_nondegenerate:
  assumes "gt_bboxes_ignore args = None" and "gt_bboxes args \<noteq> []" and "bbox_pred args \<noteq> []"
    and "compute_cost E a args = Inr (cost, bp, ng)"
    and "debug_dump E a cost bp ng (replicate (length (bbox_pred args)) (- 1)) = Inr a1"
    and "linear_sum_assignment E = Some lsa"
    and "lsa (nan_to_num cost) = (rows, cols)"
  shows "assign E a args =
           (case assign_fg (length (bbox_pred args)) (gt_labels args) rows cols of
              Inl e \<Rightarrow> Inl e
            | Inr (inds, lbls) \<Rightarrow>
                Inr (\<lparr>num_gts = length (gt_bboxes args), gt_inds = inds,
                      max_overlaps = None, labels = Some lbls\<rparr>,
                     update_stats a1 (length (bbox_pred args)) rows))"
  using assms by (simp add: assign_def Let_def)


lemma sequence_map_Inl: "sequence (map g xs) = Inl e \<Longrightarrow> \<exists>x. g x = Inl e"
  by (drule sequence_Inl) auto



lemma debug_dump_off: "\<not> debug_on (debug a) \<Longrightarrow> debug_dump E a cost bp ng asg = Inr a"
  by (simp add: debug_dump_def)

lemma debug_dump_flag:
  "debug_dump E (a\<lparr>debug := DebugFlag True\<rparr>) cost bp ng asg = Inr a' \<Longrightarrow> False"
  by (auto simp: debug_dump_def debug_on_def Let_def split: if_splits sum.splits)



lemma ex_debug_off: "debug_dump E ex_assigner cost bp ng asg = Inr ex_assigner"
  by (simp add: debug_dump_def debug_on_def ex_assigner_def)

section \<open>The example inputs, evaluated\<close>

lemma ex_two_one_cost:
  "compute_cost (ex_env lsa) ex_assigner ex_two_one =
     Inr ([[Fin 4], [Fin 1]], [ex_box 5, ex_box 2], [ex_box 1])"
  by (simp add: compute_cost_def weighted_inputs_def ex_env_def ex_assigner_def ex_two_one_def
      ex_args_def ex_box_def ex_cls_cost_def ex_reg_cost_def tensor_op2_def bcast_def Let_def)

lemma lsa_brute_two_one: "lsa_brute [[Fin 4], [Fin 1]] = ([1], [0])"
  by (simp add: lsa_brute_def total_cost_def)


lemma ex_two_one_assign:
  "assign (ex_env (Some lsa_brute)) ex_assigner ex_two_one =
     Inr (\<lparr>num_gts = 1, gt_inds = [0, 1], max_overlaps = None, labels = Some [- 1, 0]\<rparr>,
          ex_assigner)"
  apply (simp add: assign_def Let_def ex_two_one_cost ex_debug_off)
  apply (simp add: ex_two_one_def ex_args_def ex_env_def ex_assigner_def nan_to_num_def
      lsa_brute_two_one update_stats_def assign_fg_def index_put_def index_select_def)
  done

lemma ex_three_two_cost:
  "compute_cost (ex_env lsa) ex_assigner ex_three_two =
     Inr ([[Fin 1, Fin 2], [Fin 1, Fin 4], [NaN, NaN]],
          [ex_box 2, ex_box 4, ex_box 20], [ex_box 3, ex_box 0])"
  by (simp add: compute_cost_def weighted_inputs_def ex_env_def ex_assigner_def ex_three_two_def
      ex_args_def ex_box_def ex_cls_cost_def ex_reg_cost_def tensor_op2_def bcast_def Let_def)

lemma ex_three_two_sanitized:
  "nan_to_num [[Fin 1, Fin 2], [Fin 1, Fin 4], [NaN, NaN]] =
     [[Fin 1, Fin 2], [Fin 1, Fin 4], [Fin 100, Fin 100]]"
  by (simp add: nan_to_num_def)

lemma lsa_brute_three_two:
  "lsa_brute [[Fin 1, Fin 2], [Fin 1, Fin 4], [Fin 100, Fin 100]] = ([0, 1], [1, 0])"
  by code_simp

lemma ex_three_two_assign:
  "assign (ex_env (Some lsa_brute)) ex_assigner ex_three_two =
     Inr (\<lparr>num_gts = 2, gt_inds = [2, 1, 0], max_overlaps = None,
           labels = Some [0, 0, - 1]\<rparr>, ex_assigner)"
  apply (simp add: assign_def Let_def ex_three_two_cost ex_debug_off)
  apply (simp add: ex_three_two_def ex_args_def ex_env_def ex_assigner_def
      ex_three_two_sanitized lsa_brute_three_two update_stats_def assign_fg_def
      index_put_def index_select_def)
  done

section \<open>Empty inputs of assign\<close>

text \<open>
  Claim C8. The two empty cases of \<open>assign\<close> differ: without ground truth every one of
  the predictions is background (index 0) with label -1; with ground truth and without
  predictions the index and label tensors are empty. In both cases \<open>max_overlaps\<close> is
  None and neither a cost nor the matcher is evaluated: the result is the same for every
  environment (also one without scipy) and every pair of match costs, and the assigner
  object is unchanged.
\<close>

theorem assign_empty_inputs:
  assumes "gt_bboxes_ignore args = None"
  shows "(gt_bboxes args = [] \<longrightarrow>
           assign E a args =
             Inr (\<lparr>num_gts = 0, gt_inds = replicate (length (bbox_pred args)) 0,
                   max_overlaps = None,
                   labels = Some (replicate (length (bbox_pred args)) (- 1))\<rparr>, a)) \<and>
         (gt_bboxes args \<noteq> [] \<and> bbox_pred args = [] \<longrightarrow>
           assign E a args =
             Inr (\<lparr>num_gts = length (gt_bboxes args), gt_inds = [],
                   max_overlaps = None, labels = Some []\<rparr>, a))"
  using assms by (simp add: assign_def Let_def)

theorem assign_empty_inputs_witness:
  "assign (ex_env None) ex_assigner (ex_args [ex_box 1, ex_box 2] [[Fin 0], [Fin 0]] [] []) =
     Inr (\<lparr>num_gts = 0, gt_inds = [0, 0], max_overlaps = None, labels = Some [- 1, - 1]\<rparr>,
          ex_assigner) \<and>
   assign (ex_env None) ex_assigner (ex_args [] [] [ex_box 1] [0]) =
     Inr (\<lparr>num_gts = 1, gt_inds = [], max_overlaps = None, labels = Some []\<rparr>, ex_assigner)"
  using assign_empty_inputs [of "ex_args [ex_box 1, ex_box 2] [[Fin 0], [Fin 0]] [] []"
          "ex_env None" ex_assigner]
        assign_empty_inputs [of "ex_args [] [] [ex_box 1] [0]" "ex_env None" ex_assigner]
  by (simp add: ex_args_def)

section \<open>The validation of gt_bboxes_ignore\<close>








section \<open>Sanitizing the cost matrix\<close>

lemma nan_to_num1_finite: "is_finite (nan_to_num1 x)"
  by (cases x) auto

lemma nan_to_num_all_finite: "all_finite (nan_to_num C)"
  by (simp add: all_finite_def nan_to_num_def list_all_iff nan_to_num1_finite)

lemma nan_to_num_nth:
  "i < length C \<Longrightarrow> j < length (C ! i) \<Longrightarrow> nan_to_num C ! i ! j = nan_to_num1 (C ! i ! j)"
  by (simp add: nan_to_num_def)

lemma compute_cost_lsa_irrelevant:
  "compute_cost (E\<lparr>linear_sum_assignment := l\<rparr>) a args = compute_cost E a args"
  by (simp add: compute_cost_def weighted_inputs_def Let_def
      split: option.splits sum.splits prod.splits)

lemma debug_dump_lsa_irrelevant:
  "debug_dump (E\<lparr>linear_sum_assignment := l\<rparr>) a cost bp ng asg = debug_dump E a cost bp ng asg"
  by (simp add: debug_dump_def Let_def split: sum.splits debug_val.splits)

lemma assign_matcher_finite_only:
  assumes "\<forall>M. all_finite M \<longrightarrow> f M = g M"
  shows "assign (E\<lparr>linear_sum_assignment := Some f\<rparr>) a args =
         assign (E\<lparr>linear_sum_assignment := Some g\<rparr>) a args"
proof -
  have "f (nan_to_num M) = g (nan_to_num M)" for M
    using assms nan_to_num_all_finite by blast
  then show ?thesis
    by (simp add: assign_def Let_def compute_cost_lsa_irrelevant debug_dump_lsa_irrelevant
        split: sum.splits prod.splits)
qed

text \<open>
  Claim C10. Before the matcher is called, every NaN entry of the cost matrix is replaced
  by 100.0, every +infinity by 100.0 and every -infinity by -100.0, and the finite entries
  are kept, so the matrix has the same shape and only finite entries. The matcher is
  called on this matrix and on nothing else: two matchers that agree on the matrices of
  finite entries give the same result of \<open>assign\<close>. When scipy's matcher is missing,
  \<open>assign\<close> raises ImportError instead of matching (on non-empty inputs, once the cost is
  computed).
\<close>

theorem cost_sanitized_before_matching:
  "all_finite (nan_to_num cost) \<and>
   length (nan_to_num cost) = length cost \<and>
   (\<forall>i<length cost. length (nan_to_num cost ! i) = length (cost ! i) \<and>
      (\<forall>j<length (cost ! i).
         nan_to_num cost ! i ! j =
           (case cost ! i ! j of
              NaN \<Rightarrow> Fin 100 | PInf \<Rightarrow> Fin 100 | NInf \<Rightarrow> Fin (- 100) | Fin r \<Rightarrow> Fin r))) \<and>
   ((\<forall>M. all_finite M \<longrightarrow> f M = g M) \<longrightarrow>
      assign (E\<lparr>linear_sum_assignment := Some f\<rparr>) a args =
      assign (E\<lparr>linear_sum_assignment := Some g\<rparr>) a args) \<and>
   (gt_bboxes_ignore args = None \<and> gt_bboxes args \<noteq> [] \<and> bbox_pred args \<noteq> [] \<and>
    compute_cost E a args = Inr (cost, bp, ng) \<and>
    debug_dump E a cost bp ng (replicate (length (bbox_pred args)) (- 1)) = Inr a1 \<longrightarrow>
      (linear_sum_assignment E = None \<longrightarrow> assign E a args = Inl (ImportError msg_scipy)) \<and>
      (\<forall>lsa. linear_sum_assignment E = Some lsa \<longrightarrow>
         assign E a args =
           (case assign_fg (length (bbox_pred args)) (gt_labels args)
                   (fst (lsa (nan_to_num cost))) (snd (lsa (nan_to_num cost))) of
              Inl e \<Rightarrow> Inl e
            | Inr (inds, lbls) \<Rightarrow>
                Inr (\<lparr>num_gts = length (gt_bboxes args), gt_inds = inds,
                      max_overlaps = None, labels = Some lbls\<rparr>,
                     update_stats a1 (length (bbox_pred args)) (fst (lsa (nan_to_num cost)))))))"
proof (intro conjI allI impI)
  show "all_finite (nan_to_num cost)" by (rule nan_to_num_all_finite)
  show "length (nan_to_num cost) = length cost" by (simp add: nan_to_num_def)
next
  fix i assume "i < length cost"
  then show "length (nan_to_num cost ! i) = length (cost ! i)" by (simp add: nan_to_num_def)
next
  fix i j assume "i < length cost" "j < length (cost ! i)"
  then have "nan_to_num cost ! i ! j = nan_to_num1 (cost ! i ! j)" by (rule nan_to_num_nth)
  then show "nan_to_num cost ! i ! j =
           (case cost ! i ! j of
              NaN \<Rightarrow> Fin 100 | PInf \<Rightarrow> Fin 100 | NInf \<Rightarrow> Fin (- 100) | Fin r \<Rightarrow> Fin r)"
    by (cases "cost ! i ! j") auto
next
  assume "\<forall>M. all_finite M \<longrightarrow> f M = g M"
  then show "assign (E\<lparr>linear_sum_assignment := Some f\<rparr>) a args =
      assign (E\<lparr>linear_sum_assignment := Some g\<rparr>) a args"
    by (rule assign_matcher_finite_only)
next
  assume "gt_bboxes_ignore args = None \<and> gt_bboxes args \<noteq> [] \<and> bbox_pred args \<noteq> [] \<and>
    compute_cost E a args = Inr (cost, bp, ng) \<and>
    debug_dump E a cost bp ng (replicate (length (bbox_pred args)) (- 1)) = Inr a1"
    and "linear_sum_assignment E = None"
  then show "assign E a args = Inl (ImportError msg_scipy)"
    by (simp add: assign_def Let_def)
next
  fix lsa
  assume h: "gt_bboxes_ignore args = None \<and> gt_bboxes args \<noteq> [] \<and> bbox_pred args \<noteq> [] \<and>
    compute_cost E a args = Inr (cost, bp, ng) \<and>
    debug_dump E a cost bp ng (replicate (length (bbox_pred args)) (- 1)) = Inr a1"
    and l: "linear_sum_assignment E = Some lsa"
  show "assign E a args =
           (case assign_fg (length (bbox_pred args)) (gt_labels args)
                   (fst (lsa (nan_to_num cost))) (snd (lsa (nan_to_num cost))) of
              Inl e \<Rightarrow> Inl e
            | Inr (inds, lbls) \<Rightarrow>
                Inr (\<lparr>num_gts = length (gt_bboxes args), gt_inds = inds,
                      max_overlaps = None, labels = Some lbls\<rparr>,
                     update_stats a1 (length (bbox_pred args)) (fst (lsa (nan_to_num cost)))))"
    using h l by (intro assign_nondegenerate [where cost = cost and bp = bp and ng = ng and lsa = lsa]) auto
qed

lemma lsa_finite_only_agrees: "\<forall>M. all_finite M \<longrightarrow> lsa_brute M = lsa_finite_only M"
  by (simp add: lsa_finite_only_def)

lemma ex_env_update: "(ex_env l)\<lparr>linear_sum_assignment := l'\<rparr> = ex_env l'"
  by (simp add: ex_env_def)

theorem cost_sanitized_before_matching_witness:
  "nan_to_num [[NaN, PInf], [NInf, Fin 3]] ! 0 ! 0 = Fin 100 \<and>
   nan_to_num [[NaN, PInf], [NInf, Fin 3]] ! 0 ! 1 = Fin 100 \<and>
   nan_to_num [[NaN, PInf], [NInf, Fin 3]] ! 1 ! 0 = Fin (- 100) \<and>
   nan_to_num [[NaN, PInf], [NInf, Fin 3]] ! 1 ! 1 = Fin 3 \<and>
   assign (ex_env (Some lsa_brute)) ex_assigner ex_two_one =
     assign (ex_env (Some lsa_finite_only)) ex_assigner ex_two_one \<and>
   assign (ex_env None) ex_assigner ex_two_one = Inl (ImportError msg_scipy)"
proof -
  have c: "debug_dump (ex_env None) ex_assigner [[Fin 4], [Fin 1]] [ex_box 5, ex_box 2] [ex_box 1]
             (replicate (length (bbox_pred ex_two_one)) (- 1)) = Inr ex_assigner"
    by (rule ex_debug_off)
  have b: "gt_bboxes_ignore ex_two_one = None \<and> gt_bboxes ex_two_one \<noteq> [] \<and>
           bbox_pred ex_two_one \<noteq> []"
    by (simp add: ex_two_one_def ex_args_def)
  have d: "linear_sum_assignment (ex_env None) = None" by (simp add: ex_env_def)
  have "nan_to_num [[NaN, PInf], [NInf, Fin 3]] ! 0 ! 0 = Fin 100 \<and>
   nan_to_num [[NaN, PInf], [NInf, Fin 3]] ! 0 ! 1 = Fin 100 \<and>
   nan_to_num [[NaN, PInf], [NInf, Fin 3]] ! 1 ! 0 = Fin (- 100) \<and>
   nan_to_num [[NaN, PInf], [NInf, Fin 3]] ! 1 ! 1 = Fin 3"
    using cost_sanitized_before_matching [of "[[NaN, PInf], [NInf, Fin 3]]"]
    by (simp add: nth_Cons')
  moreover have "assign (ex_env (Some lsa_brute)) ex_assigner ex_two_one =
     assign (ex_env (Some lsa_finite_only)) ex_assigner ex_two_one \<and>
   assign (ex_env None) ex_assigner ex_two_one = Inl (ImportError msg_scipy)"
    using cost_sanitized_before_matching [of "[[Fin 4], [Fin 1]]" lsa_brute lsa_finite_only
        "ex_env None" ex_assigner ex_two_one "[ex_box 5, ex_box 2]" "[ex_box 1]" ex_assigner]
      lsa_finite_only_agrees b c d ex_two_one_cost [of None]
    by (simp add: ex_env_update)
  ultimately show ?thesis by blast
qed

section \<open>Foreground and background of the assignment\<close>

lemma sequence_map2_bcast:
  assumes "length A = length B" and "\<forall>(x, y)\<in>set (zip A B). length x = length y"
  shows "sequence (map2 (bcast f) A B) = Inr (map2 (map2 f) A B)"
  using assms by (induction A B rule: list_induct2) (auto simp: bcast_def)

lemma tensor_op2_ok:
  assumes "is_matrix n m A" and "is_matrix n m B"
  shows "tensor_op2 f A B = Inr (map2 (map2 f) A B)"
proof -
  from assms have len: "length A = length B" by (simp add: is_matrix_def)
  from assms have "\<forall>(x, y)\<in>set (zip A B). length x = length y"
    by (auto simp: is_matrix_def list_all_iff) (metis set_zip_leftD set_zip_rightD)
  with len show ?thesis
    by (simp add: tensor_op2_def bcast_def [of "bcast f"] sequence_map2_bcast)
qed

lemma put_zip_hit:
  assumes "distinct rows" and "length rows = length vs" and "k < length rows"
    and "rows ! k < length xs"
  shows "put xs (zip rows vs) ! (rows ! k) = vs ! k"
proof (rule put_hit)
  show "distinct (map fst (zip rows vs))" using assms by simp
  show "(rows ! k, vs ! k) \<in> set (zip rows vs)"
    using assms by (auto simp: in_set_zip)
  show "rows ! k < length xs" by fact
qed

lemma put_zip_miss:
  assumes "i \<notin> set rows"
  shows "put xs (zip rows vs) ! i = xs ! i"
proof (rule put_other)
  show "i \<notin> fst ` set (zip rows vs)" using assms by (auto dest: set_zip_leftD)
qed

text \<open>
  Claim C2. On non-empty inputs \<open>assign\<close> returns a result in which every prediction
  that is not a matched row has index 0 (background) and label -1, and every matched
  prediction has the index of its ground truth plus one and the label of that ground
  truth. The matching is the one the matcher returns on the sanitized sum of the
  classification cost and the regression cost, the latter on the first 8 code dimensions
  unless \<open>with_velo\<close> is set. The hypotheses say that the two match costs have the shape
  (predictions, ground truths), that the debug dump, if any, succeeds, and that the
  matcher keeps its contract: index arrays of one length, in range, rows distinct.
\<close>

theorem assign_foreground_background:
  assumes "gt_bboxes_ignore args = None" and "gt_bboxes args \<noteq> []" and "bbox_pred args \<noteq> []"
    and wi: "weighted_inputs E a args = Inr (bp, ng)"
    and cls: "cls = cls_cost a (cls_pred args) (gt_labels args)"
    and reg: "reg = (if with_velo args then reg_cost a bp ng
                     else reg_cost a (map (take 8) bp) (map (take 8) ng))"
    and mc: "is_matrix (length (bbox_pred args)) (length (gt_bboxes args)) cls"
    and mr: "is_matrix (length (bbox_pred args)) (length (gt_bboxes args)) reg"
    and cost: "cost = map2 (map2 (fadd E)) cls reg"
    and dbg: "debug_dump E a cost bp ng (replicate (length (bbox_pred args)) (- 1)) = Inr a1"
    and lsa: "linear_sum_assignment E = Some lsa"
    and rc: "lsa (nan_to_num cost) = (rows, cols)"
    and ok: "matcher_ok (length (bbox_pred args)) (length (gt_labels args)) (rows, cols)"
    and dist: "distinct rows"
  shows "\<exists>inds lbls a'.
           assign E a args =
             Inr (\<lparr>num_gts = length (gt_bboxes args), gt_inds = inds,
                   max_overlaps = None, labels = Some lbls\<rparr>, a') \<and>
           length inds = length (bbox_pred args) \<and> length lbls = length (bbox_pred args) \<and>
           (\<forall>i<length (bbox_pred args). i \<notin> set rows \<longrightarrow> inds ! i = 0 \<and> lbls ! i = - 1) \<and>
           (\<forall>k<length rows. inds ! (rows ! k) = int (cols ! k) + 1 \<and>
                             lbls ! (rows ! k) = gt_labels args ! (cols ! k))"
proof -
  let ?n = "length (bbox_pred args)"
  let ?inds = "put (replicate ?n (0::int)) (zip rows (map (\<lambda>c. int c + 1) cols))"
  let ?lbls = "put (replicate ?n (- 1)) (zip rows (map (\<lambda>c. gt_labels args ! c) cols))"
  from ok have len: "length rows = length cols" and rr: "\<forall>r\<in>set rows. r < ?n"
    and cr: "\<forall>c\<in>set cols. c < length (gt_labels args)"
    by (auto simp: matcher_ok_def list_all_iff)
  have cc: "compute_cost E a args = Inr (cost, bp, ng)"
    using wi cls reg cost tensor_op2_ok [OF mc mr, of "fadd E"]
    by (simp add: compute_cost_def Let_def)
  have "assign E a args =
          (case assign_fg ?n (gt_labels args) rows cols of
             Inl e \<Rightarrow> Inl e
           | Inr (inds, lbls) \<Rightarrow>
               Inr (\<lparr>num_gts = length (gt_bboxes args), gt_inds = inds,
                     max_overlaps = None, labels = Some lbls\<rparr>, update_stats a1 ?n rows))"
    using assms(1-3) cc dbg lsa rc by (rule assign_nondegenerate)
  then have res: "assign E a args =
      Inr (\<lparr>num_gts = length (gt_bboxes args), gt_inds = ?inds,
            max_overlaps = None, labels = Some ?lbls\<rparr>, update_stats a1 ?n rows)"
    by (simp add: assign_fg_ok [OF len rr cr])
  have bg: "\<forall>i<?n. i \<notin> set rows \<longrightarrow> ?inds ! i = 0 \<and> ?lbls ! i = - 1"
    by (simp add: put_zip_miss)
  have fg: "\<forall>k<length rows. ?inds ! (rows ! k) = int (cols ! k) + 1 \<and>
                             ?lbls ! (rows ! k) = gt_labels args ! (cols ! k)"
  proof (intro allI impI)
    fix k assume k: "k < length rows"
    with rr have r: "rows ! k < ?n" by simp
    from k len have kc: "k < length cols" by simp
    have "?inds ! (rows ! k) = map (\<lambda>c. int c + 1) cols ! k"
      by (rule put_zip_hit) (use dist len k r in simp_all)
    moreover have "?lbls ! (rows ! k) = map (\<lambda>c. gt_labels args ! c) cols ! k"
      by (rule put_zip_hit) (use dist len k r in simp_all)
    ultimately show "?inds ! (rows ! k) = int (cols ! k) + 1 \<and>
                     ?lbls ! (rows ! k) = gt_labels args ! (cols ! k)"
      using kc by simp
  qed
  from res bg fg show ?thesis by (intro exI conjI) (assumption | simp)+
qed


lemma ex_two_one_weighted:
  "weighted_inputs (ex_env l) ex_assigner ex_two_one = Inr ([ex_box 5, ex_box 2], [ex_box 1])"
  by (simp add: weighted_inputs_def ex_env_def ex_assigner_def ex_two_one_def ex_args_def)

lemma ex_two_one_cls:
  "cls_cost ex_assigner (cls_pred ex_two_one) (gt_labels ex_two_one) = [[Fin 0], [Fin 0]]"
  by (simp add: ex_assigner_def ex_two_one_def ex_args_def ex_cls_cost_def)

lemma ex_two_one_reg:
  "reg_cost ex_assigner (map (take 8) [ex_box 5, ex_box 2]) (map (take 8) [ex_box 1]) =
     [[Fin 4], [Fin 1]]"
  by (simp add: ex_assigner_def ex_reg_cost_def ex_box_def)

theorem assign_foreground_background_witness:
  "gt_bboxes_ignore ex_two_one = None \<and> gt_bboxes ex_two_one \<noteq> [] \<and> bbox_pred ex_two_one \<noteq> [] \<and>
   lsa_brute (nan_to_num [[Fin 4], [Fin 1]]) = ([1], [0]) \<and>
   (\<exists>inds lbls a'.
      assign (ex_env (Some lsa_brute)) ex_assigner ex_two_one =
        Inr (\<lparr>num_gts = length (gt_bboxes ex_two_one), gt_inds = inds,
              max_overlaps = None, labels = Some lbls\<rparr>, a') \<and>
      length inds = length (bbox_pred ex_two_one) \<and>
      length lbls = length (bbox_pred ex_two_one) \<and>
      (\<forall>i<length (bbox_pred ex_two_one). i \<notin> set [1] \<longrightarrow> inds ! i = 0 \<and> lbls ! i = - 1) \<and>
      (\<forall>k<length [1::nat]. inds ! ([1] ! k) = int ([0] ! k) + 1 \<and>
                        lbls ! ([1] ! k) = gt_labels ex_two_one ! ([0] ! k)))"
proof -
  have h1: "gt_bboxes_ignore ex_two_one = None" and h2: "gt_bboxes ex_two_one \<noteq> []"
    and h3: "bbox_pred ex_two_one \<noteq> []"
    by (simp_all add: ex_two_one_def ex_args_def)
  have h5: "[[Fin 0], [Fin 0]] = cls_cost ex_assigner (cls_pred ex_two_one) (gt_labels ex_two_one)"
    by (simp add: ex_two_one_cls)
  have h6: "[[Fin 4], [Fin 1]] =
      (if with_velo ex_two_one then reg_cost ex_assigner [ex_box 5, ex_box 2] [ex_box 1]
       else reg_cost ex_assigner (map (take 8) [ex_box 5, ex_box 2]) (map (take 8) [ex_box 1]))"
    using ex_two_one_reg by (simp add: ex_two_one_def ex_args_def)
  have h7: "is_matrix (length (bbox_pred ex_two_one)) (length (gt_bboxes ex_two_one))
              [[Fin 0], [Fin 0 :: fl]]"
    and h8: "is_matrix (length (bbox_pred ex_two_one)) (length (gt_bboxes ex_two_one))
              [[Fin 4], [Fin 1 :: fl]]"
    by (simp_all add: is_matrix_def ex_two_one_def ex_args_def)
  have h9: "[[Fin 4], [Fin 1]] =
      map2 (map2 (fadd (ex_env (Some lsa_brute)))) [[Fin 0], [Fin 0]] [[Fin 4], [Fin 1]]"
    by (simp add: ex_env_def)
  have h10: "debug_dump (ex_env (Some lsa_brute)) ex_assigner [[Fin 4], [Fin 1]] [ex_box 5, ex_box 2] [ex_box 1]
             (replicate (length (bbox_pred ex_two_one)) (- 1)) = Inr ex_assigner"
    by (rule ex_debug_off)
  have h11: "linear_sum_assignment (ex_env (Some lsa_brute)) = Some lsa_brute"
    by (simp add: ex_env_def)
  have h12: "lsa_brute (nan_to_num [[Fin 4], [Fin 1]]) = ([1], [0])"
    by (simp add: nan_to_num_def lsa_brute_two_one)
  have h13: "matcher_ok (length (bbox_pred ex_two_one)) (length (gt_labels ex_two_one)) ([1], [0])"
    by (simp add: matcher_ok_def ex_two_one_def ex_args_def)
  have h14: "distinct [1::nat]" by simp
  from assign_foreground_background [OF h1 h2 h3 ex_two_one_weighted h5 h6 h7 h8 h9 h10 h11 h12 h13 h14]
    h1 h2 h3 h12
  show ?thesis by blast
qed

section \<open>Unique matched indices\<close>




lemma foreground_Nil [simp]: "foreground [] = []"
  by (simp add: foreground_def)

lemma foreground_replicate_zero [simp]: "foreground (replicate n 0) = []"
  by (simp add: foreground_def)

lemma foreground_replicate_minus [simp]: "foreground (replicate n (- 1)) = []"
  by (simp add: foreground_def)





section \<open>Optimality of the matching\<close>

lemma matched_pairs_fst_distinct: "distinct (map fst (matched_pairs inds))"
  by (simp add: matched_pairs_def comp_def)

lemma matched_pairs_put:
  assumes dist: "distinct rows" and len: "length rows = length cols"
    and rr: "\<forall>r\<in>set rows. r < n"
  shows "set (matched_pairs (put (replicate n 0) (zip rows (map (\<lambda>c. int c + 1) cols)))) =
         set (zip rows cols)"
proof -
  let ?vs = "map (\<lambda>c. int c + 1) cols"
  let ?inds = "put (replicate n (0::int)) (zip rows ?vs)"
  have hit: "?inds ! (rows ! k) = int (cols ! k) + 1" if "k < length rows" for k
  proof -
    have "?inds ! (rows ! k) = ?vs ! k"
      by (rule put_zip_hit) (use dist len that rr in simp_all)
    with that len show ?thesis by simp
  qed
  have miss: "?inds ! i = 0" if "i \<notin> set rows" "i < n" for i
    using that by (simp add: put_zip_miss)
  show ?thesis
  proof (intro set_eqI iffI)
    fix p assume "p \<in> set (matched_pairs ?inds)"
    then obtain i where i: "i < n" "1 \<le> ?inds ! i" and p: "p = (i, nat (?inds ! i - 1))"
      by (auto simp: matched_pairs_def)
    have "i \<in> set rows"
    proof (rule ccontr)
      assume "i \<notin> set rows"
      then have "?inds ! i = 0" using i(1) by (rule miss)
      with i(2) show False by simp
    qed
    then obtain k where k: "k < length rows" "rows ! k = i" by (auto simp: in_set_conv_nth)
    with hit [of k] p have "p = (rows ! k, cols ! k)" by simp
    with k len show "p \<in> set (zip rows cols)" by (auto simp: in_set_zip)
  next
    fix p assume "p \<in> set (zip rows cols)"
    then obtain k where k: "k < length rows" "p = (rows ! k, cols ! k)"
      by (auto simp: in_set_zip)
    with rr have "rows ! k < n" by simp
    moreover from hit [OF k(1)] have "1 \<le> ?inds ! (rows ! k)" by simp
    moreover from hit [OF k(1)] have "nat (?inds ! (rows ! k) - 1) = cols ! k" by simp
    ultimately show "p \<in> set (matched_pairs ?inds)"
      using k by (auto simp: matched_pairs_def)
  qed
qed

lemma distinct_of_fst: "distinct (map fst ps) \<Longrightarrow> distinct ps"
  by (rule distinct_map [THEN iffD1, THEN conjunct1])

lemma total_cost_set:
  "distinct ps \<Longrightarrow> total_cost C ps = sum (\<lambda>p. fl_val (C ! fst p ! snd p)) (set ps)"
  by (simp add: total_cost_def sum_list_distinct_conv_sum_set)

lemma matching_same_set:
  assumes m: "matching n m ps" and s: "set qs = set ps" and d: "distinct (map fst qs)"
  shows "matching n m qs"
proof -
  from m have dp: "distinct ps" and ds: "distinct (map snd ps)"
    by (auto simp: matching_def dest: distinct_of_fst)
  from d have dq: "distinct qs" by (rule distinct_of_fst)
  have "length qs = card (set qs)" using dq by (simp add: distinct_card)
  also have "\<dots> = length ps" using dp s by (simp add: distinct_card)
  finally have l: "length qs = min n m" using m by (simp add: matching_def)
  from ds have "inj_on snd (set ps)" by (simp add: distinct_map)
  with s dq have "distinct (map snd qs)" by (simp add: distinct_map)
  with l d m s show ?thesis by (simp add: matching_def list_all_iff)
qed


lemma injections_sound:
  "distinct xs \<Longrightarrow> ys \<in> set (injections k xs) \<Longrightarrow>
   length ys = k \<and> distinct ys \<and> set ys \<subseteq> set xs"
proof (induction k arbitrary: xs ys)
  case 0
  then show ?case by simp
next
  case (Suc k)
  from Suc.prems(2) obtain x zs where x: "x \<in> set xs"
    and zs: "zs \<in> set (injections k (remove1 x xs))" and ys: "ys = x # zs"
    by auto
  from Suc.prems(1) have d: "distinct (remove1 x xs)" by simp
  from Suc.IH [OF d zs] have "length zs = k" "distinct zs" "set zs \<subseteq> set (remove1 x xs)"
    by auto
  with Suc.prems(1) x ys show ?case by auto
qed

lemma injections_complete:
  "distinct xs \<Longrightarrow> length ys = k \<Longrightarrow> distinct ys \<Longrightarrow> set ys \<subseteq> set xs \<Longrightarrow>
   ys \<in> set (injections k xs)"
proof (induction k arbitrary: xs ys)
  case 0
  then show ?case by simp
next
  case (Suc k)
  from Suc.prems(2) obtain y zs where ys: "ys = y # zs" by (cases ys) auto
  with Suc.prems have y: "y \<in> set xs" and l: "length zs = k" and dz: "distinct zs"
    and sub: "set zs \<subseteq> set (remove1 y xs)"
    by auto
  from Suc.prems(1) have d: "distinct (remove1 y xs)" by simp
  from Suc.IH [OF d l dz sub] have "zs \<in> set (injections k (remove1 y xs))" .
  with y ys show ?case by auto
qed

lemma first_min_mem: "first_min f b xs \<in> set (b # xs)"
  by (induction xs arbitrary: b) auto

lemma first_min_le: "x \<in> set (b # xs) \<Longrightarrow> f (first_min f b xs) \<le> f x"
proof (induction xs arbitrary: b x)
  case Nil
  then show ?case by simp
next
  case (Cons y ys)
  let ?b = "if f y < f b then y else b"
  have step: "f (first_min f ?b ys) \<le> f z" if "z \<in> set (?b # ys)" for z
    using that by (rule Cons.IH)
  from step [of ?b] have b': "f (first_min f ?b ys) \<le> f ?b" by simp
  from Cons.prems have "x = b \<or> x = y \<or> x \<in> set ys" by auto
  then show ?case
  proof (elim disjE)
    assume "x = b"
    with b' show ?thesis by (auto split: if_splits)
  next
    assume "x = y"
    with b' show ?thesis by (auto split: if_splits)
  next
    assume "x \<in> set ys"
    with step [of x] show ?thesis by simp
  qed
qed


lemma matching_swap: "matching n m ps \<Longrightarrow> matching m n (map prod.swap ps)"
  by (auto simp: matching_def list_all_iff comp_def min.commute)

lemma full_range:
  assumes "distinct xs" and "length xs = n" and "\<forall>x\<in>set xs. x < n"
  shows "set xs = {0..<n}"
proof -
  have "set xs \<subseteq> {0..<n}" using assms(3) by auto
  moreover have "card (set xs) = card {0..<n}" using assms(1,2) by (simp add: distinct_card)
  ultimately show ?thesis by (simp add: card_subset_eq)
qed

lemma rows_cand_matching:
  assumes "cs \<in> set (injections n [0..<m])" and "n \<le> m"
  shows "matching n m (zip [0..<n] cs)"
proof -
  from injections_sound [OF _ assms(1)]
  have l: "length cs = n" and d: "distinct cs" and s: "set cs \<subseteq> {0..<m}" by auto
  have "fst p < n \<and> snd p < m" if "p \<in> set (zip [0..<n] cs)" for p
  proof -
    obtain i c where p: "p = (i, c)" by (cases p)
    with that have "i \<in> set [0..<n]" "c \<in> set cs"
      by (auto dest: set_zip_leftD set_zip_rightD)
    with s p show ?thesis by auto
  qed
  with l d assms(2) show ?thesis by (simp add: matching_def list_all_iff)
qed

lemma distinct_map_sort_key: "distinct (map f (sort_key g xs)) = distinct (map f xs)"
  by (simp add: distinct_map)

lemma cols_cand_matching:
  assumes "rs \<in> set (injections m [0..<n])" and "m \<le> n"
  shows "matching n m (sort_key fst (zip rs [0..<m]))"
proof -
  from injections_sound [OF _ assms(1)]
  have l: "length rs = m" and d: "distinct rs" and s: "set rs \<subseteq> {0..<n}" by auto
  have "fst p < n \<and> snd p < m" if "p \<in> set (zip rs [0..<m])" for p
  proof -
    obtain r j where p: "p = (r, j)" by (cases p)
    with that have "r \<in> set rs" "j \<in> set [0..<m]"
      by (auto dest: set_zip_leftD set_zip_rightD)
    with s p show ?thesis by auto
  qed
  with l d assms(2) have m: "matching n m (zip rs [0..<m])"
    by (simp add: matching_def list_all_iff)
  from l d have dd: "distinct (map fst (sort_key fst (zip rs [0..<m])))"
    by (simp add: distinct_map_sort_key)
  show ?thesis by (rule matching_same_set [OF m _ dd]) simp
qed

lemma matching_rows_cand:
  assumes m: "matching n m qs" and le: "n \<le> m"
  shows "\<exists>cs\<in>set (injections n [0..<m]). set (zip [0..<n] cs) = set qs"
proof -
  let ?f = "\<lambda>i. the (map_of qs i)"
  let ?cs = "map ?f [0..<n]"
  from m le have len: "length qs = n" and d: "distinct (map fst qs)"
    and b: "\<forall>p\<in>set qs. fst p < n \<and> snd p < m"
    by (auto simp: matching_def list_all_iff)
  have fs: "set (map fst qs) = {0..<n}"
    by (rule full_range) (use len d b in auto)
  have z: "zip [0..<n] ?cs = map (\<lambda>i. (i, ?f i)) [0..<n]"
    by (simp add: zip_map2 zip_same_conv_map)
  have s: "set (zip [0..<n] ?cs) = set qs"
  proof (intro set_eqI iffI)
    fix p assume "p \<in> set (zip [0..<n] ?cs)"
    then obtain i where i: "i < n" "p = (i, ?f i)" by (auto simp: z)
    with fs have "i \<in> fst ` set qs" by auto
    then obtain c where c: "(i, c) \<in> set qs" by force
    with d have "map_of qs i = Some c" by simp
    with i c show "p \<in> set qs" by simp
  next
    fix p assume p: "p \<in> set qs"
    obtain i c where ic: "p = (i, c)" by (cases p)
    with p d have "map_of qs i = Some c" by simp
    moreover from p b ic have "i < n" by auto
    ultimately show "p \<in> set (zip [0..<n] ?cs)" using ic by (auto simp: z)
  qed
  have "matching n m (zip [0..<n] ?cs)" using m s by (rule matching_same_set) simp
  then have dc: "distinct ?cs" by (simp add: matching_def)
  have "?f i < m" if "i < n" for i
  proof -
    from that fs have "i \<in> fst ` set qs" by auto
    then obtain c where c: "(i, c) \<in> set qs" by force
    with d have "map_of qs i = Some c" by simp
    with c b show ?thesis by auto
  qed
  then have "set ?cs \<subseteq> set [0..<m]" by auto
  with dc have "?cs \<in> set (injections n [0..<m])"
    by (intro injections_complete) simp_all
  with s show ?thesis by blast
qed

lemma matching_cols_cand:
  assumes m: "matching n m qs" and le: "m \<le> n"
  shows "\<exists>rs\<in>set (injections m [0..<n]). set (zip rs [0..<m]) = set qs"
proof -
  from m have "matching m n (map prod.swap qs)" by (rule matching_swap)
  from matching_rows_cand [OF this le] obtain rs where rs: "rs \<in> set (injections m [0..<n])"
    and s: "set (zip [0..<m] rs) = set (map prod.swap qs)"
    by auto
  have "set (zip rs [0..<m]) = prod.swap ` set (zip [0..<m] rs)"
    by (auto simp: in_set_zip)
  also have "\<dots> = prod.swap ` prod.swap ` set qs" using s by simp
  also have "\<dots> = set qs" by (simp add: image_image)
  finally show ?thesis using rs by blast
qed

lemma injections_nonempty:
  assumes "k \<le> length xs" and "distinct xs"
  shows "injections k xs \<noteq> []"
proof -
  have "take k xs \<in> set (injections k xs)"
    by (rule injections_complete) (use assms in \<open>auto dest: in_set_takeD\<close>)
  then show ?thesis by auto
qed


lemma lsa_brute_optimal:
  assumes mat: "is_matrix n m C" and n: "0 < n" and m: "0 < m"
  shows "length (fst (lsa_brute C)) = length (snd (lsa_brute C)) \<and>
         optimal_matching C n m (zip (fst (lsa_brute C)) (snd (lsa_brute C)))"
proof -
  let ?cands = "if n \<le> m then map (\<lambda>cs. zip [0..<n] cs) (injections n [0..<m])
                else map (\<lambda>rs. sort_key fst (zip rs [0..<m])) (injections m [0..<n])"
  from mat n obtain row rest where C: "C = row # rest" and lr: "length row = m"
    and lc: "length C = n"
    by (cases C) (auto simp: is_matrix_def)
  have ne: "?cands \<noteq> []" by (simp add: injections_nonempty)
  then obtain c cs where cands: "?cands = c # cs" by (cases ?cands) auto
  let ?best = "first_min (total_cost C) c cs"
  have lb: "lsa_brute C = (map fst ?best, map snd ?best)"
    using cands lc lr C by (simp add: lsa_brute_def Let_def)
  have sound: "matching n m x" if "x \<in> set ?cands" for x
    using that by (auto split: if_splits intro: rows_cand_matching cols_cand_matching)
  have complete: "\<exists>x\<in>set ?cands. set x = set qs" if q: "matching n m qs" for qs
  proof (cases "n \<le> m")
    case True
    from matching_rows_cand [OF q True] True show ?thesis by auto
  next
    case False
    then have le: "m \<le> n" by simp
    from matching_cols_cand [OF q le] False show ?thesis by auto
  qed
  have bm: "?best \<in> set ?cands" using first_min_mem [of "total_cost C" c cs] cands by simp
  then have mb: "matching n m ?best" by (rule sound)
  have "total_cost C ?best \<le> total_cost C qs" if q: "matching n m qs" for qs
  proof -
    from complete [OF q] obtain x where x: "x \<in> set ?cands" and sx: "set x = set qs" by blast
    from x have "matching n m x" by (rule sound)
    then have dx: "distinct x" by (auto simp: matching_def dest: distinct_of_fst)
    from q have dq: "distinct qs" by (auto simp: matching_def dest: distinct_of_fst)
    from x cands have "x \<in> set (c # cs)" by simp
    then have "total_cost C ?best \<le> total_cost C x" by (rule first_min_le)
    also have "\<dots> = total_cost C qs" using dx dq sx by (simp add: total_cost_set)
    finally show ?thesis .
  qed
  with mb have "optimal_matching C n m ?best" by (simp add: optimal_matching_def)
  with lb show ?thesis by (simp add: zip_map_fst_snd)
qed

lemma lsa_brute_contract: "lsa_contract lsa_brute"
  unfolding lsa_contract_def by (intro allI impI) (rule lsa_brute_optimal, simp_all)

lemma is_matrix_nan_to_num: "is_matrix n m C \<Longrightarrow> is_matrix n m (nan_to_num C)"
  by (simp add: is_matrix_def nan_to_num_def list_all_iff)


text \<open>
  Claim C1. On non-empty inputs the pairs (prediction, ground truth) that \<open>assign\<close>
  writes into its result form a one-to-one matching of size min(num_gts, num_bboxes) of
  least summed cost over the sanitized cost matrix, among all one-to-one matchings of
  that size. The matcher is scipy's \<open>linear_sum_assignment\<close>, whose code is not part of
  this repository: the hypothesis \<open>lsa_contract\<close> is its documented contract on the
  matrices of finite entries, which the exhaustive reference matcher is proved to meet.
  What \<open>assign\<close> adds is proved here: the matrix it passes is the cost with the shape
  (num_bboxes, num_gts) and every entry finite after \<open>nan_to_num\<close>, so that the contract
  applies, and the result it builds from the two index arrays encodes exactly the
  matcher's pairs. The other hypotheses say that the cost has that shape, that the
  debug dump, if any, succeeds, and that there is one label for each ground truth.
\<close>

theorem assign_matching_optimal:
  assumes h1: "gt_bboxes_ignore args = None" and h2: "gt_bboxes args \<noteq> []"
    and h3: "bbox_pred args \<noteq> []"
    and cc: "compute_cost E a args = Inr (cost, bp, ng)"
    and sh: "is_matrix (length (bbox_pred args)) (length (gt_bboxes args)) cost"
    and dbg: "debug_dump E a cost bp ng (replicate (length (bbox_pred args)) (- 1)) = Inr a1"
    and lsa: "linear_sum_assignment E = Some lsa"
    and con: "lsa_contract lsa"
    and gl: "length (gt_labels args) = length (gt_bboxes args)"
  shows "\<exists>r a'. assign E a args = Inr (r, a') \<and>
           set (matched_pairs (gt_inds r)) =
             set (zip (fst (lsa (nan_to_num cost))) (snd (lsa (nan_to_num cost)))) \<and>
           matching (length (bbox_pred args)) (length (gt_bboxes args))
             (matched_pairs (gt_inds r)) \<and>
           (\<forall>qs. matching (length (bbox_pred args)) (length (gt_bboxes args)) qs \<longrightarrow>
                 total_cost (nan_to_num cost) (matched_pairs (gt_inds r)) \<le>
                 total_cost (nan_to_num cost) qs)"
proof -
  let ?n = "length (bbox_pred args)" and ?m = "length (gt_bboxes args)"
  obtain rows cols where rc: "lsa (nan_to_num cost) = (rows, cols)"
    by (cases "lsa (nan_to_num cost)")
  let ?inds = "put (replicate ?n (0::int)) (zip rows (map (\<lambda>c. int c + 1) cols))"
  let ?lbls = "put (replicate ?n (- 1)) (zip rows (map (\<lambda>c. gt_labels args ! c) cols))"
  from h2 h3 have pos: "0 < ?n" "0 < ?m" by simp_all
  have fin: "all_finite (nan_to_num cost)" by (rule nan_to_num_all_finite)
  have mat: "is_matrix ?n ?m (nan_to_num cost)" using sh by (rule is_matrix_nan_to_num)
  from con pos mat fin rc have len: "length rows = length cols"
    and opt: "optimal_matching (nan_to_num cost) ?n ?m (zip rows cols)"
    unfolding lsa_contract_def by (metis fst_conv snd_conv)+
  from opt have mt: "matching ?n ?m (zip rows cols)" by (simp add: optimal_matching_def)
  have fz: "map fst (zip rows cols) = rows" and sz: "map snd (zip rows cols) = cols"
    using len by simp_all
  from mt have "distinct (map fst (zip rows cols))" by (simp add: matching_def)
  with fz have dist: "distinct rows" by simp
  from mt have bounds: "\<forall>p\<in>set (zip rows cols). fst p < ?n \<and> snd p < ?m"
    by (simp add: matching_def list_all_iff)
  have rr: "\<forall>r\<in>set rows. r < ?n"
  proof
    fix r assume "r \<in> set rows"
    with fz have "r \<in> fst ` set (zip rows cols)" by (metis set_map)
    with bounds show "r < ?n" by blast
  qed
  have cr: "\<forall>c\<in>set cols. c < length (gt_labels args)"
  proof
    fix c assume "c \<in> set cols"
    with sz have "c \<in> snd ` set (zip rows cols)" by (metis set_map)
    with bounds gl show "c < length (gt_labels args)" by auto
  qed
  have "assign E a args =
          (case assign_fg ?n (gt_labels args) rows cols of
             Inl e \<Rightarrow> Inl e
           | Inr (inds, lbls) \<Rightarrow>
               Inr (\<lparr>num_gts = ?m, gt_inds = inds,
                     max_overlaps = None, labels = Some lbls\<rparr>, update_stats a1 ?n rows))"
    using h1 h2 h3 cc dbg lsa rc by (rule assign_nondegenerate)
  then have res: "assign E a args =
      Inr (\<lparr>num_gts = ?m, gt_inds = ?inds, max_overlaps = None, labels = Some ?lbls\<rparr>,
           update_stats a1 ?n rows)"
    by (simp add: assign_fg_ok [OF len rr cr])
  have s: "set (matched_pairs ?inds) = set (zip rows cols)"
    using dist len rr by (rule matched_pairs_put)
  have mq: "matching ?n ?m (matched_pairs ?inds)"
    using mt s matched_pairs_fst_distinct by (rule matching_same_set)
  have "distinct (zip rows cols)" using dist len by (simp add: distinct_zipI1)
  then have tc: "total_cost (nan_to_num cost) (matched_pairs ?inds) =
                 total_cost (nan_to_num cost) (zip rows cols)"
    using s matched_pairs_fst_distinct [of ?inds]
    by (simp add: total_cost_set distinct_of_fst)
  have least: "\<forall>qs. matching ?n ?m qs \<longrightarrow>
      total_cost (nan_to_num cost) (matched_pairs ?inds) \<le> total_cost (nan_to_num cost) qs"
    using opt tc by (simp add: optimal_matching_def)
  from res s mq least rc show ?thesis by simp
qed

theorem assign_matching_optimal_witness:
  "gt_bboxes_ignore ex_three_two = None \<and> gt_bboxes ex_three_two \<noteq> [] \<and>
   bbox_pred ex_three_two \<noteq> [] \<and>
   compute_cost (ex_env (Some lsa_brute)) ex_assigner ex_three_two =
     Inr ([[Fin 1, Fin 2], [Fin 1, Fin 4], [NaN, NaN]],
          [ex_box 2, ex_box 4, ex_box 20], [ex_box 3, ex_box 0]) \<and>
   lsa_contract lsa_brute \<and>
   (\<exists>r a'. assign (ex_env (Some lsa_brute)) ex_assigner ex_three_two = Inr (r, a') \<and>
      gt_inds r = [2, 1, 0] \<and>
      matched_pairs (gt_inds r) = [(0, 1), (1, 0)] \<and>
      matching 3 2 (matched_pairs (gt_inds r)) \<and>
      total_cost (nan_to_num [[Fin 1, Fin 2], [Fin 1, Fin 4], [NaN, NaN]])
        (matched_pairs (gt_inds r)) = 3 \<and>
      total_cost (nan_to_num [[Fin 1, Fin 2], [Fin 1, Fin 4], [NaN, NaN]])
        (matched_pairs (gt_inds r)) \<le>
      total_cost (nan_to_num [[Fin 1, Fin 2], [Fin 1, Fin 4], [NaN, NaN]]) [(0, 0), (1, 1)])"
proof -
  let ?C = "[[Fin 1, Fin 2], [Fin 1, Fin 4], [NaN, NaN]]"
  have h1: "gt_bboxes_ignore ex_three_two = None" and h2: "gt_bboxes ex_three_two \<noteq> []"
    and h3: "bbox_pred ex_three_two \<noteq> []"
    by (simp_all add: ex_three_two_def ex_args_def)
  have n: "length (bbox_pred ex_three_two) = 3" and m: "length (gt_bboxes ex_three_two) = 2"
    by (simp_all add: ex_three_two_def ex_args_def)
  have sh: "is_matrix (length (bbox_pred ex_three_two)) (length (gt_bboxes ex_three_two)) ?C"
    by (simp add: n m is_matrix_def)
  have l: "linear_sum_assignment (ex_env (Some lsa_brute)) = Some lsa_brute"
    by (simp add: ex_env_def)
  have gl: "length (gt_labels ex_three_two) = length (gt_bboxes ex_three_two)"
    by (simp add: ex_three_two_def ex_args_def)
  have q: "matching 3 2 [(0, 0), (1, 1)]" by (simp add: matching_def)
  from assign_matching_optimal [OF h1 h2 h3 ex_three_two_cost sh ex_debug_off l
      lsa_brute_contract gl]
  obtain r a' where r: "assign (ex_env (Some lsa_brute)) ex_assigner ex_three_two = Inr (r, a')"
    and mt: "matching 3 2 (matched_pairs (gt_inds r))"
    and least: "\<forall>qs. matching 3 2 qs \<longrightarrow>
      total_cost (nan_to_num ?C) (matched_pairs (gt_inds r)) \<le> total_cost (nan_to_num ?C) qs"
    unfolding n m by blast
  from r have gi: "gt_inds r = [2, 1, 0]" by (auto simp: ex_three_two_assign)
  have mp: "matched_pairs [2, 1, 0] = [(0, 1), (1, 0)]"
    by (simp add: matched_pairs_def upt_rec nth_Cons')
  have tc: "total_cost (nan_to_num ?C) [(0, 1), (1, 0)] = 3"
    by (simp add: total_cost_def nan_to_num_def)
  from least q have le: "total_cost (nan_to_num ?C) (matched_pairs (gt_inds r)) \<le>
      total_cost (nan_to_num ?C) [(0, 0), (1, 1)]"
    by blast
  have p: "matched_pairs (gt_inds r) = [(0, 1), (1, 0)]" unfolding gi by (rule mp)
  have t3: "total_cost (nan_to_num ?C) (matched_pairs (gt_inds r)) = 3"
    unfolding p by (rule tc)
  from r gi p mt t3 le
  have "\<exists>r a'. assign (ex_env (Some lsa_brute)) ex_assigner ex_three_two = Inr (r, a') \<and>
      gt_inds r = [2, 1, 0] \<and>
      matched_pairs (gt_inds r) = [(0, 1), (1, 0)] \<and>
      matching 3 2 (matched_pairs (gt_inds r)) \<and>
      total_cost (nan_to_num ?C) (matched_pairs (gt_inds r)) = 3 \<and>
      total_cost (nan_to_num ?C) (matched_pairs (gt_inds r)) \<le>
      total_cost (nan_to_num ?C) [(0, 0), (1, 1)]"
    by blast
  with h1 h2 h3 ex_three_two_cost [of "Some lsa_brute"] lsa_brute_contract
  show ?thesis by (intro conjI)
qed

section \<open>NMSFreeCoder: decoding\<close>

lemma set_mask_select: "set (mask_select xs msk) \<subseteq> set xs"
  by (auto simp: mask_select_def dest: set_zip_leftD)

lemma length_mask_select_le: "length (mask_select xs msk) \<le> length xs"
proof -
  have "length (filter snd (zip xs msk)) \<le> length (zip xs msk)"
    by (rule length_filter_le)
  then show ?thesis by (simp add: mask_select_def)
qed

lemma decode_single_InrD:
  assumes "decode_single L c cls_scores bbox_preds = Inr d"
  shows "\<exists>scores indexs lbls bbox_index picked r mask0 msk.
           select_topk L c cls_scores = Inr (scores, indexs) \<and>
           split_index c indexs = Inr (lbls, bbox_index) \<and>
           index_select_int bbox_preds bbox_index = Inr picked \<and>
           post_center_range c = Some r \<and>
           range_mask (denormalize_bbox L picked (pc_range c)) r = Inr mask0 \<and>
           (if truthy (score_threshold c)
            then (\<exists>t. score_threshold c = Some t \<and>
                       bcast (\<and>) mask0 (map (\<lambda>s. fl_ge s t) scores) = Inr msk)
            else msk = mask0) \<and>
           length msk = length (denormalize_bbox L picked (pc_range c)) \<and>
           length msk = length scores \<and> length msk = length lbls \<and>
           d = [''bboxes'' \<mapsto> T2 (mask_select (denormalize_bbox L picked (pc_range c)) msk),
                ''scores'' \<mapsto> T1 (mask_select scores msk),
                ''labels'' \<mapsto> TI (mask_select lbls msk)]"
  using assms
  by (auto simp: decode_single_def Let_def truthy_def
      split: sum.splits prod.splits option.splits if_splits)

text \<open>
  Claim C9. For every selected flattened top-k index the label is the index modulo
  \<open>num_classes\<close> and the box index is the floor of the index divided by \<open>num_classes\<close>, so
  that box index times \<open>num_classes\<close> plus label gives the index back; with a positive
  \<open>num_classes\<close> every label, and so every label that \<open>decode_single\<close> returns, lies in
  [0, num_classes).
\<close>

theorem index_decomposition:
  "(split_index c indexs = Inr (lbls, bbox_index) \<longrightarrow>
      length lbls = length indexs \<and> length bbox_index = length indexs \<and>
      (\<forall>k<length indexs.
         lbls ! k = int (indexs ! k) mod num_classes c \<and>
         bbox_index ! k = int (indexs ! k) div num_classes c \<and>
         bbox_index ! k * num_classes c + lbls ! k = int (indexs ! k) \<and>
         (0 < num_classes c \<longrightarrow> 0 \<le> lbls ! k \<and> lbls ! k < num_classes c))) \<and>
   (decode_single L c cls_scores bbox_preds = Inr d \<longrightarrow>
      (\<exists>scores indexs lbls bbox_index ls.
         select_topk L c cls_scores = Inr (scores, indexs) \<and>
         split_index c indexs = Inr (lbls, bbox_index) \<and>
         d ''labels'' = Some (TI ls) \<and> set ls \<subseteq> set lbls \<and>
         (0 < num_classes c \<longrightarrow> (\<forall>l\<in>set ls. 0 \<le> l \<and> l < num_classes c))))"
proof (rule conjI)
  show "split_index c indexs = Inr (lbls, bbox_index) \<longrightarrow>
      length lbls = length indexs \<and> length bbox_index = length indexs \<and>
      (\<forall>k<length indexs.
         lbls ! k = int (indexs ! k) mod num_classes c \<and>
         bbox_index ! k = int (indexs ! k) div num_classes c \<and>
         bbox_index ! k * num_classes c + lbls ! k = int (indexs ! k) \<and>
         (0 < num_classes c \<longrightarrow> 0 \<le> lbls ! k \<and> lbls ! k < num_classes c))"
    by (auto simp: split_index_def split: if_splits)
next
  show "decode_single L c cls_scores bbox_preds = Inr d \<longrightarrow>
      (\<exists>scores indexs lbls bbox_index ls.
         select_topk L c cls_scores = Inr (scores, indexs) \<and>
         split_index c indexs = Inr (lbls, bbox_index) \<and>
         d ''labels'' = Some (TI ls) \<and> set ls \<subseteq> set lbls \<and>
         (0 < num_classes c \<longrightarrow> (\<forall>l\<in>set ls. 0 \<le> l \<and> l < num_classes c)))"
  proof (rule impI)
  assume "decode_single L c cls_scores bbox_preds = Inr d"
  from decode_single_InrD [OF this] obtain scores indexs lbls bbox_index msk where
    t: "select_topk L c cls_scores = Inr (scores, indexs)"
    and s: "split_index c indexs = Inr (lbls, bbox_index)"
    and d: "d ''labels'' = Some (TI (mask_select lbls msk))"
    by auto
  have sub: "set (mask_select lbls msk) \<subseteq> set lbls" by (rule set_mask_select)
  have "\<forall>l\<in>set lbls. 0 \<le> l \<and> l < num_classes c" if "0 < num_classes c"
    using s that by (auto simp: split_index_def split: if_splits)
  with sub have "0 < num_classes c \<longrightarrow>
      (\<forall>l\<in>set (mask_select lbls msk). 0 \<le> l \<and> l < num_classes c)" by blast
  with t s d sub show "\<exists>scores indexs lbls bbox_index ls.
         select_topk L c cls_scores = Inr (scores, indexs) \<and>
         split_index c indexs = Inr (lbls, bbox_index) \<and>
         d ''labels'' = Some (TI ls) \<and> set ls \<subseteq> set lbls \<and>
         (0 < num_classes c \<longrightarrow> (\<forall>l\<in>set ls. 0 \<le> l \<and> l < num_classes c))"
    by blast
  qed
qed


lemma ex_flat_scores:
  "concat (map (map (sigmoid ex_coder_env)) ex_cls_scores) =
     [Fin (3 / 4), Fin (1 / 4), Fin (7 / 8), Fin (1 / 2)]"
  by (simp add: ex_coder_env_def ex_cls_scores_def)

lemma ex_topk:
  "topk ex_coder_env [Fin (3 / 4), Fin (1 / 4), Fin (7 / 8), Fin (1 / 2)] 4 =
     ([Fin (7 / 8), Fin (3 / 4), Fin (1 / 2), Fin (1 / 4)], [2, 0, 3, 1])"
  by code_simp

lemma ex_select_topk:
  "select_topk ex_coder_env (ex_coder r t n) ex_cls_scores =
     Inr ([Fin (7 / 8), Fin (3 / 4), Fin (1 / 2), Fin (1 / 4)], [2, 0, 3, 1])"
proof -
  have "min (int (length [Fin (3 / 4), Fin (1 / 4), Fin (7 / 8), Fin (1 / 2)]))
          (max_num (ex_coder r t n)) = 4"
    by (simp add: ex_coder_def)
  then show ?thesis
    unfolding select_topk_def ex_flat_scores Let_def by (simp add: ex_topk del: One_nat_def)
qed

lemma ex_split_index:
  "split_index (ex_coder r t 2) [2, 0, 3, 1] = Inr ([0, 0, 1, 1], [1, 0, 1, 0])"
  by (simp add: split_index_def ex_coder_def)

lemma ex_index_select:
  "index_select_int ex_bbox_preds [1, 0, 1, 0] = Inr [ex_box 70, ex_box 0, ex_box 70, ex_box 0]"
  by (simp add: index_select_int_def ex_bbox_preds_def)

lemma ex_denormalize: "denormalize_bbox ex_coder_env bs r = bs"
  by (simp add: ex_coder_env_def)

lemma ex_range_mask: "range_mask [ex_box 70, ex_box 0, ex_box 70, ex_box 0] ex_range =
    Inr [False, True, False, True]"
  by (simp add: range_mask_def ex_box_def ex_range_def bcast_def fl_le_def)

lemma ex_decode_single:
  "decode_single ex_coder_env (ex_coder (Some ex_range) (Some (Fin (1 / 2))) 2)
     ex_cls_scores ex_bbox_preds =
   Inr [''bboxes'' \<mapsto> T2 [ex_box 0], ''scores'' \<mapsto> T1 [Fin (3 / 4)], ''labels'' \<mapsto> TI [0]]"
proof -
  have c: "post_center_range (ex_coder (Some ex_range) (Some (Fin (1 / 2))) 2) = Some ex_range"
    "score_threshold (ex_coder (Some ex_range) (Some (Fin (1 / 2))) 2) = Some (Fin (1 / 2))"
    by (simp_all add: ex_coder_def)
  show ?thesis
    unfolding decode_single_def ex_select_topk
    apply (simp only: sum.case prod.case ex_split_index ex_index_select Let_def
        ex_denormalize c option.case ex_range_mask)
    apply (simp add: truthy_def bcast_def mask_select_def)
    done
qed

theorem index_decomposition_witness:
  "split_index (ex_coder (Some ex_range) (Some (Fin (1 / 2))) 2) [2, 0, 3, 1] =
     Inr ([0, 0, 1, 1], [1, 0, 1, 0]) \<and>
   [1, 0, 1, 0] ! 0 * num_classes (ex_coder (Some ex_range) (Some (Fin (1 / 2))) 2) +
     [0, 0, 1, 1] ! 0 = int ([2, 0, 3, 1] ! 0) \<and>
   [1, 0, 1, 0] ! 2 * num_classes (ex_coder (Some ex_range) (Some (Fin (1 / 2))) 2) +
     [0, 0, 1, 1] ! 2 = int ([2, 0, 3, 1] ! 2) \<and>
   0 < num_classes (ex_coder (Some ex_range) (Some (Fin (1 / 2))) 2) \<and>
   (\<exists>d ls. decode_single ex_coder_env (ex_coder (Some ex_range) (Some (Fin (1 / 2))) 2)
              ex_cls_scores ex_bbox_preds = Inr d \<and>
            d ''labels'' = Some (TI ls) \<and>
            (\<forall>l\<in>set ls. 0 \<le> l \<and>
                           l < num_classes (ex_coder (Some ex_range) (Some (Fin (1 / 2))) 2)))"
proof -
  let ?c = "ex_coder (Some ex_range) (Some (Fin (1 / 2))) 2"
  let ?d = "[''bboxes'' \<mapsto> T2 [ex_box 0], ''scores'' \<mapsto> T1 [Fin (3 / 4)], ''labels'' \<mapsto> TI [0]]"
  have n: "0 < num_classes ?c" by (simp add: ex_coder_def)
  note t = index_decomposition [of ?c "[2, 0, 3, 1]" "[0, 0, 1, 1]" "[1, 0, 1, 0]"
      ex_coder_env ex_cls_scores ex_bbox_preds ?d]
  from t ex_split_index have a: "\<forall>k<length [2, 0, 3, 1 :: nat].
      [1, 0, 1, 0] ! k * num_classes ?c + [0, 0, 1, 1] ! k = int ([2, 0, 3, 1] ! k)"
    by blast
  have a0: "[1, 0, 1, 0] ! 0 * num_classes ?c + [0, 0, 1, 1] ! 0 = int ([2, 0, 3, 1] ! 0)"
    using a [rule_format, of 0] by simp
  have a2: "[1, 0, 1, 0] ! 2 * num_classes ?c + [0, 0, 1, 1] ! 2 = int ([2, 0, 3, 1] ! 2)"
    using a [rule_format, of 2] by simp
  from t ex_decode_single n obtain ls where
    "?d ''labels'' = Some (TI ls)" "\<forall>l\<in>set ls. 0 \<le> l \<and> l < num_classes ?c"
    by blast
  with ex_decode_single have "\<exists>d ls. decode_single ex_coder_env ?c ex_cls_scores ex_bbox_preds = Inr d \<and>
            d ''labels'' = Some (TI ls) \<and> (\<forall>l\<in>set ls. 0 \<le> l \<and> l < num_classes ?c)"
    by blast
  with a0 a2 n ex_split_index show ?thesis by (intro conjI)
qed

lemma sequence_map_Inr:
  "\<forall>x\<in>set xs. f x = Inr (g x) \<Longrightarrow> sequence (map f xs) = Inr (map g xs)"
  by (induction xs) auto

lemma sequence_Inr_all:
  "sequence rs = Inr xs \<Longrightarrow> r \<in> set rs \<Longrightarrow> \<exists>x. r = Inr x"
  by (induction rs arbitrary: xs rule: sequence.induct) (auto split: sum.splits)

lemma select_topk_ok:
  assumes "decode_inputs_ok L c cls_scores bbox_preds"
  shows "\<exists>scores indexs. select_topk L c cls_scores = Inr (scores, indexs) \<and>
           length scores = length indexs \<and>
           (\<forall>i\<in>set indexs. int i < num_classes c * int (length bbox_preds))"
proof -
  let ?flat = "concat (map (map (sigmoid L)) cls_scores)"
  let ?k = "nat (min (int (length ?flat)) (max_num c))"
  from assms have m: "0 \<le> max_num c" and le: "int (length ?flat) \<le> num_classes c * int (length bbox_preds)"
    and ok: "topk_ok ?flat ?k (topk L ?flat ?k)"
    by (simp_all add: decode_inputs_ok_def Let_def)
  obtain scores indexs where t: "topk L ?flat ?k = (scores, indexs)" by (cases "topk L ?flat ?k")
  with ok have len: "length scores = length indexs" and r: "\<forall>i\<in>set indexs. i < length ?flat"
    by (simp_all add: topk_ok_def list_all_iff)
  from m t have "select_topk L c cls_scores = Inr (scores, indexs)"
    by (simp add: select_topk_def Let_def)
  moreover from r le have "\<forall>i\<in>set indexs. int i < num_classes c * int (length bbox_preds)"
    by fastforce
  ultimately show ?thesis using len by blast
qed

lemma div_in_range:
  fixes i n m :: int
  assumes "0 \<le> i" and "0 < n" and "i < n * m"
  shows "0 \<le> i div n \<and> i div n < m"
proof -
  from assms(1,2) have "0 \<le> i div n" by (simp add: pos_imp_zdiv_nonneg_iff)
  moreover have "i div n < m"
  proof (rule ccontr)
    assume "\<not> i div n < m"
    then have "m \<le> i div n" by simp
    with assms(2) have "n * m \<le> n * (i div n)" by (simp add: mult_left_mono)
    moreover have "n * (i div n) + i mod n = i" by simp
    moreover from assms(2) have "0 \<le> i mod n" by simp
    ultimately show False using assms(3) by linarith
  qed
  ultimately show ?thesis by simp
qed

lemma index_select_int_ok:
  assumes "\<forall>j\<in>set js. 0 \<le> j \<and> j < int (length xs)"
  shows "\<exists>ys. index_select_int xs js = Inr ys \<and> length ys = length js"
  using assms by (auto simp: index_select_int_def list_ex_iff)

lemma range_mask_ok:
  assumes "length r = 6" and "\<forall>b\<in>set boxes. 3 \<le> length b"
  shows "\<exists>m. range_mask boxes r = Inr m \<and> length m = length boxes"
proof -
  have lo: "sequence (map (\<lambda>b. bcast fl_ge (take 3 b) (take 3 r)) boxes) =
            Inr (map (\<lambda>b. map2 fl_ge (take 3 b) (take 3 r)) boxes)"
    by (rule sequence_map_Inr) (use assms in \<open>auto simp: bcast_def\<close>)
  have hi: "sequence (map (\<lambda>b. bcast fl_le (take 3 b) (drop 3 r)) boxes) =
            Inr (map (\<lambda>b. map2 fl_le (take 3 b) (drop 3 r)) boxes)"
    by (rule sequence_map_Inr) (use assms in \<open>auto simp: bcast_def\<close>)
  show ?thesis by (simp add: range_mask_def lo hi)
qed

lemma decode_single_prefix_ok:
  assumes ok: "decode_inputs_ok L c cls_scores bbox_preds"
  shows "\<exists>scores indexs lbls bbox_index picked.
           select_topk L c cls_scores = Inr (scores, indexs) \<and>
           split_index c indexs = Inr (lbls, bbox_index) \<and>
           index_select_int bbox_preds bbox_index = Inr picked \<and>
           length scores = length indexs \<and> length lbls = length indexs \<and>
           length picked = length indexs \<and> set picked \<subseteq> set bbox_preds"
proof -
  from select_topk_ok [OF ok] obtain scores indexs where
    t: "select_topk L c cls_scores = Inr (scores, indexs)" and len: "length scores = length indexs"
    and r: "\<forall>i\<in>set indexs. int i < num_classes c * int (length bbox_preds)"
    by blast
  from ok have n: "0 < num_classes c" by (simp add: decode_inputs_ok_def Let_def)
  let ?lbls = "map (\<lambda>i. int i mod num_classes c) indexs"
  let ?bi = "map (\<lambda>i. int i div num_classes c) indexs"
  from n have s: "split_index c indexs = Inr (?lbls, ?bi)" by (simp add: split_index_def)
  have b: "\<forall>j\<in>set ?bi. 0 \<le> j \<and> j < int (length bbox_preds)"
    using r n by (auto intro: div_in_range [THEN conjunct1] div_in_range [THEN conjunct2])
  then have sel: "index_select_int bbox_preds ?bi =
      Inr (map (\<lambda>j. bbox_preds ! nat (if j < 0 then j + int (length bbox_preds) else j)) ?bi)"
    by (auto simp: index_select_int_def list_ex_iff)
  have "set (map (\<lambda>j. bbox_preds ! nat (if j < 0 then j + int (length bbox_preds) else j)) ?bi)
          \<subseteq> set bbox_preds"
    using b by auto
  with t s sel len show ?thesis by (intro exI conjI) (assumption | simp)+
qed


lemma range_mask_err: "range_mask boxes r = Inl e \<Longrightarrow> e = ShapeError"
proof -
  assume a: "range_mask boxes r = Inl e"
  show ?thesis
  proof (cases "sequence (map (\<lambda>b. bcast fl_ge (take 3 b) (take 3 r)) boxes)")
    case (Inl e')
    with a have "e' = e" by (simp add: range_mask_def)
    with Inl sequence_map_Inl [of "\<lambda>b. bcast fl_ge (take 3 b) (take 3 r)" boxes e]
    show ?thesis by (auto dest: bcast_err)
  next
    case (Inr lo)
    with a have "sequence (map (\<lambda>b. bcast fl_le (take 3 b) (drop 3 r)) boxes) = Inl e"
      by (simp add: range_mask_def split: sum.splits)
    from sequence_map_Inl [OF this] show ?thesis by (auto dest: bcast_err)
  qed
qed

lemma decode_single_not_implemented_only:
  assumes "decode_single L c cls_scores bbox_preds = Inl (NotImplementedError m)"
  shows "post_center_range c = None \<and> m = msg_batch"
  using assms
  by (auto simp: decode_single_def select_topk_def split_index_def index_select_int_def Let_def
      split: sum.splits prod.splits option.splits if_splits
      dest: range_mask_err bcast_err)

lemma decode_single_none:
  assumes "decode_inputs_ok L c cls_scores bbox_preds" and "post_center_range c = None"
  shows "decode_single L c cls_scores bbox_preds = Inl (NotImplementedError msg_batch)"
proof -
  from decode_single_prefix_ok [OF assms(1)] obtain scores indexs lbls bbox_index picked where
    "select_topk L c cls_scores = Inr (scores, indexs)"
    "split_index c indexs = Inr (lbls, bbox_index)"
    "index_select_int bbox_preds bbox_index = Inr picked"
    by blast
  with assms(2) show ?thesis by (simp add: decode_single_def Let_def)
qed

lemma decode_single_some:
  assumes ok: "decode_inputs_ok L c cls_scores bbox_preds" and dn: "denormalize_ok L c"
    and cols: "list_all (\<lambda>b. 3 \<le> length b) bbox_preds"
    and r: "post_center_range c = Some r" and len: "length r = 6"
  shows "\<exists>b s l. decode_single L c cls_scores bbox_preds =
                   Inr [''bboxes'' \<mapsto> T2 b, ''scores'' \<mapsto> T1 s, ''labels'' \<mapsto> TI l]"
proof -
  from decode_single_prefix_ok [OF ok] obtain scores indexs lbls bbox_index picked where
    p: "select_topk L c cls_scores = Inr (scores, indexs)"
    "split_index c indexs = Inr (lbls, bbox_index)"
    "index_select_int bbox_preds bbox_index = Inr picked"
    and l: "length scores = length indexs" "length lbls = length indexs"
    "length picked = length indexs" and sub: "set picked \<subseteq> set bbox_preds"
    by blast
  let ?boxes = "denormalize_bbox L picked (pc_range c)"
  from cols sub have "list_all (\<lambda>b. 3 \<le> length b) picked" by (auto simp: list_all_iff)
  with dn have lb: "length ?boxes = length picked" and cb: "\<forall>b\<in>set ?boxes. 3 \<le> length b"
    by (auto simp: denormalize_ok_def list_all_iff)
  from range_mask_ok [OF len cb] obtain mask0 where
    m: "range_mask ?boxes r = Inr mask0" and lm: "length mask0 = length ?boxes" by blast
  show ?thesis
  proof (cases "truthy (score_threshold c)")
    case False
    with p r m lm lb l have "decode_single L c cls_scores bbox_preds =
        Inr [''bboxes'' \<mapsto> T2 (mask_select ?boxes mask0),
             ''scores'' \<mapsto> T1 (mask_select scores mask0),
             ''labels'' \<mapsto> TI (mask_select lbls mask0)]"
      by (simp add: decode_single_def Let_def)
    then show ?thesis by blast
  next
    case True
    then obtain t where t: "score_threshold c = Some t"
      by (auto simp: truthy_def split: option.splits)
    let ?msk = "map2 (\<and>) mask0 (map (\<lambda>s. fl_ge s t) scores)"
    have "bcast (\<and>) mask0 (map (\<lambda>s. fl_ge s t) scores) = Inr ?msk"
      using lm lb l by (simp add: bcast_def)
    with True t p r m lm lb l have "decode_single L c cls_scores bbox_preds =
        Inr [''bboxes'' \<mapsto> T2 (mask_select ?boxes ?msk),
             ''scores'' \<mapsto> T1 (mask_select scores ?msk),
             ''labels'' \<mapsto> TI (mask_select lbls ?msk)]"
      by (simp add: decode_single_def Let_def)
    then show ?thesis by blast
  qed
qed

lemma decode_single_keys:
  assumes "decode_single L c cls_scores bbox_preds = Inr d"
  shows "post_center_range c \<noteq> None \<and> dom d = {''bboxes'', ''scores'', ''labels''}"
proof -
  from decode_single_InrD [OF assms] obtain r b s l where
    "post_center_range c = Some r"
    and d: "d = [''bboxes'' \<mapsto> T2 b, ''scores'' \<mapsto> T1 s, ''labels'' \<mapsto> TI l]"
    by blast
  then show ?thesis by auto
qed

lemma decode_propagates:
  assumes "last_layer all_cls = Inr S" and "last_layer all_bbox = Inr B"
    and "i < length S" and "i < length B"
    and "decode_single L c (S ! i) (B ! i) = Inl e"
  shows "\<exists>e'. decode L c all_cls all_bbox = Inl e'"
proof (cases "decode L c all_cls all_bbox")
  case (Inl e')
  then show ?thesis by blast
next
  case (Inr ds)
  let ?f = "\<lambda>i. if i < length B then decode_single L c (S ! i) (B ! i) else Inl IndexError"
  from Inr assms(1,2) have "sequence (map ?f [0..<length S]) = Inr ds"
    by (simp add: decode_def)
  moreover from assms(3) have "?f i \<in> set (map ?f [0..<length S])" by simp
  ultimately obtain x where "?f i = Inr x" using sequence_Inr_all by blast
  with assms(4,5) show ?thesis by simp
qed

text \<open>
  Claim C7. \<open>decode_single\<close> raises NotImplementedError only if \<open>post_center_range\<close> is
  None, and on well-formed inputs it does raise it then; with a \<open>post_center_range\<close> of six
  values it returns a dictionary with the keys "bboxes", "scores" and "labels", and every
  dictionary it returns has exactly these keys. The error is not caught in the coder:
  when \<open>decode_single\<close> fails on one sample of the batch, \<open>decode\<close> fails.
\<close>

theorem decode_single_not_implemented:
  "(decode_single L c cls_scores bbox_preds = Inl (NotImplementedError m) \<longrightarrow>
      post_center_range c = None \<and> m = msg_batch) \<and>
   (decode_inputs_ok L c cls_scores bbox_preds \<and> post_center_range c = None \<longrightarrow>
      decode_single L c cls_scores bbox_preds = Inl (NotImplementedError msg_batch)) \<and>
   (decode_inputs_ok L c cls_scores bbox_preds \<and> denormalize_ok L c \<and>
    list_all (\<lambda>b. 3 \<le> length b) bbox_preds \<and> post_center_range c = Some r \<and> length r = 6 \<longrightarrow>
      (\<exists>b s l. decode_single L c cls_scores bbox_preds =
                 Inr [''bboxes'' \<mapsto> T2 b, ''scores'' \<mapsto> T1 s, ''labels'' \<mapsto> TI l])) \<and>
   (decode_single L c cls_scores bbox_preds = Inr d \<longrightarrow>
      post_center_range c \<noteq> None \<and> dom d = {''bboxes'', ''scores'', ''labels''}) \<and>
   (last_layer all_cls = Inr S \<and> last_layer all_bbox = Inr B \<and> i < length S \<and> i < length B \<and>
    decode_single L c (S ! i) (B ! i) = Inl e \<longrightarrow>
      (\<exists>e'. decode L c all_cls all_bbox = Inl e'))"
  using decode_single_not_implemented_only [of L c cls_scores bbox_preds m]
    decode_single_none [of L c cls_scores bbox_preds]
    decode_single_some [of L c cls_scores bbox_preds r]
    decode_single_keys [of L c cls_scores bbox_preds d]
    decode_propagates [of all_cls S all_bbox B i L c e]
  by blast


lemma ex_decode_inputs_ok:
  "decode_inputs_ok ex_coder_env (ex_coder r t 2) ex_cls_scores ex_bbox_preds"
proof -
  have "nat (min (int (length [Fin (3 / 4), Fin (1 / 4), Fin (7 / 8), Fin (1 / 2 :: rat)]))
          (max_num (ex_coder r t 2))) = 4"
    by (simp add: ex_coder_def)
  then show ?thesis
    unfolding decode_inputs_ok_def ex_flat_scores Let_def
    by (simp add: ex_topk topk_ok_def ex_coder_def ex_bbox_preds_def del: One_nat_def)
qed

lemma ex_denormalize_ok: "denormalize_ok ex_coder_env c"
  by (simp add: denormalize_ok_def ex_coder_env_def)

theorem decode_single_not_implemented_witness:
  "decode_single ex_coder_env (ex_coder None None 2) ex_cls_scores ex_bbox_preds =
     Inl (NotImplementedError msg_batch) \<and>
   (\<exists>b s l. decode_single ex_coder_env (ex_coder (Some ex_range) None 2)
               ex_cls_scores ex_bbox_preds =
             Inr [''bboxes'' \<mapsto> T2 b, ''scores'' \<mapsto> T1 s, ''labels'' \<mapsto> TI l]) \<and>
   (\<exists>e'. decode ex_coder_env (ex_coder None None 2) [[ex_cls_scores]] [[ex_bbox_preds]] =
          Inl e')"
proof -
  have n: "post_center_range (ex_coder None None 2) = None" by (simp add: ex_coder_def)
  have r: "post_center_range (ex_coder (Some ex_range) None 2) = Some ex_range"
    by (simp add: ex_coder_def)
  have l: "length ex_range = 6" by (simp add: ex_range_def)
  have b: "list_all (\<lambda>b. 3 \<le> length b) ex_bbox_preds"
    by (simp add: ex_bbox_preds_def ex_box_def)
  note T1 = decode_single_not_implemented [of ex_coder_env "ex_coder None None 2"
      ex_cls_scores ex_bbox_preds]
  have a: "decode_single ex_coder_env (ex_coder None None 2) ex_cls_scores ex_bbox_preds =
     Inl (NotImplementedError msg_batch)"
    by (rule T1 [THEN conjunct2, THEN conjunct1, rule_format]) (simp add: ex_decode_inputs_ok n)
  note T2 = decode_single_not_implemented [of ex_coder_env "ex_coder (Some ex_range) None 2"
      ex_cls_scores ex_bbox_preds _ ex_range]
  have s: "\<exists>b s l. decode_single ex_coder_env (ex_coder (Some ex_range) None 2)
               ex_cls_scores ex_bbox_preds =
             Inr [''bboxes'' \<mapsto> T2 b, ''scores'' \<mapsto> T1 s, ''labels'' \<mapsto> TI l]"
    by (rule T2 [THEN conjunct2, THEN conjunct2, THEN conjunct1, rule_format])
       (simp add: ex_decode_inputs_ok ex_denormalize_ok r l b)
  have ll: "last_layer [[ex_cls_scores]] = Inr [ex_cls_scores]"
    "last_layer [[ex_bbox_preds]] = Inr [ex_bbox_preds]"
    by (simp_all add: last_layer_def)
  note T3 = decode_single_not_implemented [of ex_coder_env "ex_coder None None 2"
      ex_cls_scores ex_bbox_preds _ _ _ "[[ex_cls_scores]]" "[ex_cls_scores]"
      "[[ex_bbox_preds]]" "[ex_bbox_preds]" 0 "NotImplementedError msg_batch"]
  have d: "\<exists>e'. decode ex_coder_env (ex_coder None None 2) [[ex_cls_scores]] [[ex_bbox_preds]] =
          Inl e'"
    by (rule T3 [THEN conjunct2, THEN conjunct2, THEN conjunct2, THEN conjunct2, rule_format])
       (simp add: ll a)
  from a s d show ?thesis by (intro conjI)
qed

lemma topk_ok_singleton:
  assumes "topk_ok [x] 1 r"
  shows "r = ([x], [0])"
proof -
  obtain s i where r: "r = (s, i)" by (cases r)
  with assms have "length i = 1" and "\<forall>j\<in>set i. j < 1" and s: "s = map (\<lambda>j. [x] ! j) i"
    by (simp_all add: topk_ok_def list_all_iff)
  then have "i = [0]" by (cases i) auto
  with s r show ?thesis by simp
qed

text \<open>
  Claim C3 does not hold of the code. The threshold mask is computed when
  \<open>score_threshold\<close> is not None (line 67) and applied when \<open>score_threshold\<close> is true
  (line 77), which 0.0 is not. With a threshold of 0.0 a NaN score, for which
  \<open>NaN >= 0.0\<close> is false, is returned: one query of one class with the score NaN and a box
  inside the range.
\<close>

theorem decode_single_zero_threshold:
  assumes sg: "sigmoid L NaN = NaN"
    and tk: "topk_ok [NaN] 1 (topk L [NaN] 1)"
    and dn: "denormalize_bbox L [box] (pc_range c) = [box']"
    and rm: "range_mask [box'] r = Inr [True]"
    and pr: "post_center_range c = Some r"
    and st: "score_threshold c = Some (Fin 0)"
    and nc: "num_classes c = 1" and mn: "1 \<le> max_num c"
  shows "decode_single L c [[NaN]] [box] =
           Inr [''bboxes'' \<mapsto> T2 [box'], ''scores'' \<mapsto> T1 [NaN], ''labels'' \<mapsto> TI [0]] \<and>
         score_threshold c \<noteq> None \<and> \<not> fl_ge NaN (Fin 0)"
proof -
  from tk have t: "topk L [NaN] 1 = ([NaN], [0])" by (rule topk_ok_singleton)
  from mn have k: "min 1 (max_num c) = 1" by simp
  from t have t': "topk L [NaN] (Suc 0) = ([NaN], [0])" by simp
  have sel: "select_topk L c [[NaN]] = Inr ([NaN], [0])"
    by (simp add: select_topk_def sg k t')
  have sp: "split_index c [0] = Inr ([0], [0])" by (simp add: split_index_def nc)
  have ix: "index_select_int [box] [0] = Inr [box]" by (simp add: index_select_int_def)
  have "decode_single L c [[NaN]] [box] =
           Inr [''bboxes'' \<mapsto> T2 [box'], ''scores'' \<mapsto> T1 [NaN], ''labels'' \<mapsto> TI [0]]"
    by (simp add: decode_single_def sel sp ix dn rm pr st truthy_def mask_select_def)
  with st show ?thesis by simp
qed

theorem decode_single_zero_threshold_witness:
  "decode_single ex_coder_env (ex_coder (Some ex_range) (Some (Fin 0)) 1) [[NaN]] [ex_box 0] =
     Inr [''bboxes'' \<mapsto> T2 [ex_box 0], ''scores'' \<mapsto> T1 [NaN], ''labels'' \<mapsto> TI [0]] \<and>
   score_threshold (ex_coder (Some ex_range) (Some (Fin 0)) 1) = Some (Fin 0) \<and>
   \<not> fl_ge NaN (Fin 0)"
proof -
  let ?c = "ex_coder (Some ex_range) (Some (Fin 0)) 1"
  have sg: "sigmoid ex_coder_env NaN = NaN" by (simp add: ex_coder_env_def)
  have tk: "topk_ok [NaN] 1 (topk ex_coder_env [NaN] 1)"
    by (simp add: topk_ok_def ex_coder_env_def topk_ref_def)
  have dn: "denormalize_bbox ex_coder_env [ex_box 0] (pc_range ?c) = [ex_box 0]"
    by (simp add: ex_coder_env_def)
  have rm: "range_mask [ex_box 0] ex_range = Inr [True]"
    by (simp add: range_mask_def ex_box_def ex_range_def bcast_def fl_le_def)
  have pr: "post_center_range ?c = Some ex_range" and st: "score_threshold ?c = Some (Fin 0)"
    and nc: "num_classes ?c = 1" and mn: "1 \<le> max_num ?c"
    by (simp_all add: ex_coder_def)
  from decode_single_zero_threshold [OF sg tk dn rm pr st nc mn] st show ?thesis by simp
qed

section \<open>Refinement of the reference points\<close>

lemma length_widen [simp]: "length (widen d v) = d"
  by (simp add: widen_def)

lemma length_masked_put [simp]: "length (masked_put xs ms vs) = length xs"
  by (induction xs ms vs rule: masked_put.induct) auto

lemma masked_put_widths: "map length (masked_put xs ms vs) = map length xs"
  by (induction xs ms vs rule: masked_put.induct) (auto split: list.splits)

lemma masked_put_keep:
  "j < length xs \<Longrightarrow> j < length ms \<Longrightarrow> \<not> ms ! j \<Longrightarrow> masked_put xs ms vs ! j = xs ! j"
proof (induction xs ms vs arbitrary: j rule: masked_put.induct)
  case (1 x xs m ms vs)
  show ?case
  proof (cases j)
    case 0
    with "1.prems" show ?thesis by simp
  next
    case (Suc j')
    with "1.prems" "1.IH" show ?thesis by (cases m) simp_all
  qed
qed auto

lemma count_true_Cons: "count_true (m # ms) = (if m then Suc (count_true ms) else count_true ms)"
  by (simp add: count_true_def)

lemma count_true_Nil [simp]: "count_true [] = 0"
  by (simp add: count_true_def)

lemma count_true_append: "count_true (xs @ ys) = count_true xs + count_true ys"
  by (simp add: count_true_def)

lemma masked_put_hit:
  "j < length xs \<Longrightarrow> j < length ms \<Longrightarrow> ms ! j \<Longrightarrow> count_true (take j ms) < length vs \<Longrightarrow>
   masked_put xs ms vs ! j = widen (length (xs ! j)) (vs ! count_true (take j ms))"
proof (induction xs ms vs arbitrary: j rule: masked_put.induct)
  case (1 x xs m ms vs)
  show ?case
  proof (cases j)
    case 0
    with "1.prems" show ?thesis by (cases vs) simp_all
  next
    case (Suc j')
    show ?thesis
    proof (cases m)
      case True
      with Suc "1.prems" have c: "Suc (count_true (take j' ms)) < length vs"
        by (simp add: count_true_Cons)
      then have "count_true (take j' ms) < length (tl vs)" by (cases vs) simp_all
      with "1.IH"(1) [OF True, of j'] Suc "1.prems" True
      have "masked_put xs ms (tl vs) ! j' =
              widen (length (xs ! j')) (tl vs ! count_true (take j' ms))"
        by simp
      also have "tl vs ! count_true (take j' ms) = vs ! Suc (count_true (take j' ms))"
        using c by (cases vs) simp_all
      finally show ?thesis using Suc True by (simp add: count_true_Cons)
    next
      case False
      with "1.IH"(2) [OF False, of j'] Suc "1.prems" show ?thesis
        by (simp add: count_true_Cons)
    qed
  qed
qed auto

lemma length_masked_put2 [simp]: "length (masked_put2 T M vs) = length T"
  by (induction T M vs rule: masked_put2.induct) auto

lemma masked_put2_nth:
  "b < length T \<Longrightarrow> b < length M \<Longrightarrow>
   masked_put2 T M vs ! b = masked_put (T ! b) (M ! b) (drop (count_true (concat (take b M))) vs)"
proof (induction T M vs arbitrary: b rule: masked_put2.induct)
  case (1 r rs m ms vs)
  show ?case
  proof (cases b)
    case 0
    then show ?thesis by simp
  next
    case (Suc b')
    with 1 show ?thesis by (simp add: count_true_append add.commute)
  qed
qed auto


lemma masked_put2_shape: "map length (masked_put2 T M vs) = map length T"
  by (induction T M vs rule: masked_put2.induct) auto

lemma masked_put2_widths: "map (map length) (masked_put2 T M vs) = map (map length) T"
  by (induction T M vs rule: masked_put2.induct) (auto simp: masked_put_widths)

lemma masked_assign_Inr:
  assumes "masked_assign T M vs = Inr T'"
  shows "map length T = map length M \<and>
         (length vs = count_true (concat M) \<or> length vs = 1) \<and> widths_ok T vs \<and>
         T' = masked_put2 T M (if length vs = count_true (concat M) then vs
                               else replicate (count_true (concat M)) (hd vs))"
  using assms by (auto simp: masked_assign_def Let_def split: if_splits)

lemma masked_assign_frame:
  assumes "masked_assign T M vs = Inr T'"
  shows "map length T' = map length T \<and> map (map length) T' = map (map length) T \<and>
         map length T = map length M \<and>
         (\<forall>b<length T. \<forall>j<length (T ! b). \<not> M ! b ! j \<longrightarrow> T' ! b ! j = T ! b ! j)"
proof -
  from masked_assign_Inr [OF assms] obtain ws where sh: "map length T = map length M"
    and T': "T' = masked_put2 T M ws"
    by blast
  from sh have len: "length T = length M" by (rule map_eq_imp_length_eq)
  have "T' ! b ! j = T ! b ! j" if b: "b < length T" and j: "j < length (T ! b)"
    and m: "\<not> M ! b ! j" for b j
  proof -
    from sh b len have "length (T ! b) = length (M ! b)"
      by (metis length_map nth_map)
    with b j m len show ?thesis
      by (simp add: T' masked_put2_nth masked_put_keep)
  qed
  with sh T' show ?thesis by (simp add: masked_put2_shape masked_put2_widths)
qed

lemma count_true_take_less:
  assumes "j < length ms" and "ms ! j"
  shows "count_true (take j ms) < count_true ms"
proof -
  from assms(1) have "ms = take j ms @ ms ! j # drop (Suc j) ms" by (rule id_take_nth_drop)
  then have "count_true ms = count_true (take j ms @ ms ! j # drop (Suc j) ms)" by simp
  with assms(2) show ?thesis by (simp add: count_true_append count_true_Cons)
qed

lemma count_true_concat_take:
  assumes "b < length M"
  shows "count_true (concat (take b M)) + count_true (M ! b) \<le> count_true (concat M)"
proof -
  from assms have "M = take b M @ M ! b # drop (Suc b) M" by (rule id_take_nth_drop)
  then have "concat M = concat (take b M) @ M ! b @ concat (drop (Suc b) M)"
    by (metis concat.simps(2) concat_append)
  then show ?thesis by (simp add: count_true_append)
qed

lemma masked_assign_hit:
  assumes a: "masked_assign T M vs = Inr T'"
    and b: "b < length T" and j: "j < length (T ! b)" and m: "M ! b ! j"
  shows "T' ! b ! j =
           widen (length (T ! b ! j))
             (vs ! (if length vs = count_true (concat M)
                    then count_true (concat (take b M)) + count_true (take j (M ! b))
                    else 0))"
proof -
  let ?t = "count_true (concat M)"
  let ?ws = "if length vs = ?t then vs else replicate ?t (hd vs)"
  from masked_assign_Inr [OF a] have sh: "map length T = map length M"
    and n: "length vs = ?t \<or> length vs = 1" and T': "T' = masked_put2 T M ?ws"
    by blast+
  from sh have len: "length T = length M" by (rule map_eq_imp_length_eq)
  with b have bM: "b < length M" by simp
  from sh b len have lb: "length (T ! b) = length (M ! b)" by (metis length_map nth_map)
  with j have jM: "j < length (M ! b)" by simp
  let ?off = "count_true (concat (take b M))"
  let ?idx = "?off + count_true (take j (M ! b))"
  from count_true_take_less [OF jM m] count_true_concat_take [OF bM]
  have lt: "?idx < ?t" by simp
  have lw: "length ?ws = ?t" by simp
  from lt lw have "count_true (take j (M ! b)) < length (drop ?off ?ws)" by simp
  with j jM m have "masked_put (T ! b) (M ! b) (drop ?off ?ws) ! j =
        widen (length (T ! b ! j)) (drop ?off ?ws ! count_true (take j (M ! b)))"
    by (intro masked_put_hit)
  also have "drop ?off ?ws ! count_true (take j (M ! b)) = ?ws ! ?idx"
    using lt lw by simp
  also have "?ws ! ?idx = vs ! (if length vs = ?t then ?idx else 0)"
  proof (cases "length vs = ?t")
    case True
    then show ?thesis by simp
  next
    case False
    with n have "length vs = 1" by simp
    then have "hd vs = vs ! 0" by (cases vs) simp_all
    with False lt show ?thesis by simp
  qed
  finally show ?thesis using b bM by (simp add: T' masked_put2_nth)
qed

lemma forward_step_Inr:
  assumes "forward_step ops D A i layer s = Inr s'" and "return_intermediate D"
  shows "\<exists>q lg nr. intermediate s' = intermediate s @ [q] \<and>
           intermediate_reference_points s' = intermediate_reference_points s @ [nr] \<and>
           intermediate_dyn_q_logits s' = intermediate_dyn_q_logits s @ [lg] \<and>
           s_reference_points s' = nr \<and>
           refined ops A (s_reference_points s) lg nr"
  using assms
  by (auto simp: forward_step_def Let_def refined_def split: if_splits sum.splits)


lemma forward_loop_inv:
  assumes "forward_loop ops D A i ls s = Inr s'" and "return_intermediate D"
    and "length (intermediate_reference_points s) = Suc (length (intermediate_dyn_q_logits s))"
    and "last (intermediate_reference_points s) = s_reference_points s"
  shows "length (intermediate s') = length (intermediate s) + length ls \<and>
         length (intermediate_dyn_q_logits s') = length (intermediate_dyn_q_logits s) + length ls \<and>
         length (intermediate_reference_points s') = Suc (length (intermediate_dyn_q_logits s')) \<and>
         take (length (intermediate_reference_points s)) (intermediate_reference_points s') =
           intermediate_reference_points s \<and>
         take (length (intermediate_dyn_q_logits s)) (intermediate_dyn_q_logits s') =
           intermediate_dyn_q_logits s \<and>
         (\<forall>k. length (intermediate_dyn_q_logits s) \<le> k \<and> k < length (intermediate_dyn_q_logits s') \<longrightarrow>
              refined ops A (intermediate_reference_points s' ! k)
                (intermediate_dyn_q_logits s' ! k) (intermediate_reference_points s' ! Suc k))"
  using assms
proof (induction ls arbitrary: i s)
  case Nil
  then show ?case by auto
next
  case (Cons layer ls)
  let ?irp = intermediate_reference_points and ?ilg = intermediate_dyn_q_logits
  from Cons.prems(1) obtain s1 where st: "forward_step ops D A i layer s = Inr s1"
    and lp: "forward_loop ops D A (Suc i) ls s1 = Inr s'"
    by (auto split: sum.splits)
  from forward_step_Inr [OF st Cons.prems(2)] obtain q lg nr where
    s1: "intermediate s1 = intermediate s @ [q]" "?irp s1 = ?irp s @ [nr]"
    "?ilg s1 = ?ilg s @ [lg]" "s_reference_points s1 = nr"
    and rf: "refined ops A (s_reference_points s) lg nr"
    by blast
  let ?n = "length (?ilg s)"
  from Cons.prems(3) have n: "length (?irp s) = Suc ?n" .
  have p3: "length (?irp s1) = Suc (length (?ilg s1))" using s1 n by simp
  have p4: "last (?irp s1) = s_reference_points s1" using s1 by simp
  note IH = Cons.IH [OF lp Cons.prems(2) p3 p4]
  from IH have l1: "length (intermediate s') = length (intermediate s1) + length ls"
    and l2: "length (?ilg s') = length (?ilg s1) + length ls"
    and l3: "length (?irp s') = Suc (length (?ilg s'))"
    and t1: "take (length (?irp s1)) (?irp s') = ?irp s1"
    and t2: "take (length (?ilg s1)) (?ilg s') = ?ilg s1"
    and r: "\<forall>k. length (?ilg s1) \<le> k \<and> k < length (?ilg s') \<longrightarrow>
              refined ops A (?irp s' ! k) (?ilg s' ! k) (?irp s' ! Suc k)"
    by blast+
  have a1: "take (length (?irp s)) (?irp s') = ?irp s"
  proof -
    have "take (length (?irp s)) (?irp s') = take (length (?irp s)) (take (length (?irp s1)) (?irp s'))"
      using s1 by simp
    also have "\<dots> = take (length (?irp s)) (?irp s @ [nr])" using t1 s1 by simp
    finally show ?thesis by simp
  qed
  have a2: "take (length (?ilg s)) (?ilg s') = ?ilg s"
  proof -
    have "take (length (?ilg s)) (?ilg s') = take (length (?ilg s)) (take (length (?ilg s1)) (?ilg s'))"
      using s1 by simp
    also have "\<dots> = take (length (?ilg s)) (?ilg s @ [lg])" using t2 s1 by simp
    finally show ?thesis by simp
  qed
  have e0: "?irp s' ! ?n = s_reference_points s"
  proof -
    have "?irp s' ! ?n = take (length (?irp s1)) (?irp s') ! ?n" using s1 n by simp
    also have "\<dots> = (?irp s @ [nr]) ! ?n" using t1 s1 by simp
    also have "\<dots> = ?irp s ! ?n" using n by (simp add: nth_append)
    also have "\<dots> = last (?irp s)"
    proof -
      from n have "?irp s \<noteq> []" by auto
      then have "last (?irp s) = ?irp s ! (length (?irp s) - 1)" by (rule last_conv_nth)
      with n show ?thesis by simp
    qed
    finally show ?thesis using Cons.prems(4) by simp
  qed
  have e1: "?irp s' ! Suc ?n = nr"
  proof -
    have "?irp s' ! Suc ?n = take (length (?irp s1)) (?irp s') ! Suc ?n" using s1 n by simp
    also have "\<dots> = (?irp s @ [nr]) ! Suc ?n" using t1 s1 by simp
    finally show ?thesis using n by (simp add: nth_append)
  qed
  have e2: "?ilg s' ! ?n = lg"
  proof -
    have "?ilg s' ! ?n = take (length (?ilg s1)) (?ilg s') ! ?n" using s1 by simp
    also have "\<dots> = (?ilg s @ [lg]) ! ?n" using t2 s1 by simp
    finally show ?thesis by (simp add: nth_append)
  qed
  have rr: "refined ops A (?irp s' ! k) (?ilg s' ! k) (?irp s' ! Suc k)"
    if "?n \<le> k" and "k < length (?ilg s')" for k
  proof (cases "k = ?n")
    case True
    with rf e0 e1 e2 show ?thesis by simp
  next
    case False
    with that have "length (?ilg s1) \<le> k" using s1 by simp
    with r that show ?thesis by blast
  qed
  from l1 l2 l3 a1 a2 rr s1 show ?case by simp
qed


lemma map_length_nth:
  assumes "map length X = map length Y" and "b < length Y"
  shows "length X = length Y \<and> length (X ! b) = length (Y ! b)"
proof -
  from assms(1) have l: "length X = length Y" by (rule map_eq_imp_length_eq)
  with assms have "map length X ! b = map length Y ! b" by simp
  with l assms(2) show ?thesis by simp
qed



text \<open>
  Claim C5. When \<open>forward\<close> returns, the stack of reference points has num_layers + 1
  entries and its first entry is the initial \<open>reference_points\<close>. Every refinement step
  maps one entry to the next by writing the probability-weighted combination of
  \<open>dyn_q_coords\<close> (for the softmax of that step's logits) at the positions where
  \<open>dyn_q_mask\<close> is true, and nowhere else: all entries have the shape of the initial
  reference points, and at every position outside \<open>dyn_q_mask\<close> every entry holds the
  initial reference point. At a position inside \<open>dyn_q_mask\<close> the new point is the row
  of the weighted combination that belongs to it in row-major order (the only row, if
  there is just one), repeated over the coordinates if it has a single entry.
\<close>

theorem forward_reference_points:
  assumes fw: "forward ops D A = Inr (qs, rps, lgs)"
  shows "length rps = length (layers D) + 1 \<and> length qs = length (layers D) \<and>
         length lgs = length (layers D) \<and> rps ! 0 = reference_points A \<and>
         (\<forall>k<length (layers D). refined ops A (rps ! k) (lgs ! k) (rps ! Suc k)) \<and>
         (\<forall>k\<le>length (layers D).
            map length (rps ! k) = map length (reference_points A) \<and>
            map (map length) (rps ! k) = map (map length) (reference_points A) \<and>
            (\<forall>b<length (reference_points A). \<forall>j<length (reference_points A ! b).
               \<not> dyn_q_mask A ! b ! j \<longrightarrow> rps ! k ! b ! j = reference_points A ! b ! j)) \<and>
         (\<forall>k<length (layers D).
            \<forall>b<length (reference_points A). \<forall>j<length (reference_points A ! b).
              dyn_q_mask A ! b ! j \<longrightarrow>
              rps ! Suc k ! b ! j =
                widen (length (reference_points A ! b ! j))
                  (t_weighted ops (t_softmax ops (lgs ! k)) (dyn_q_coords A) !
                    (if length (t_weighted ops (t_softmax ops (lgs ! k)) (dyn_q_coords A)) =
                        count_true (concat (dyn_q_mask A))
                     then count_true (concat (take b (dyn_q_mask A))) +
                          count_true (take j (dyn_q_mask A ! b))
                     else 0)))"
proof -
  let ?L = "length (layers D)" and ?rp0 = "reference_points A" and ?M = "dyn_q_mask A"
  let ?s0 = "\<lparr>s_query = query A, s_query_pos = query_pos A,
                s_reference_points = reference_points A,
                s_dyn_q_logits = t_log ops (dyn_q_probs A),
                intermediate = [], intermediate_reference_points = [reference_points A],
                intermediate_dyn_q_logits = []\<rparr>"
  from fw have ri: "return_intermediate D"
    by (auto simp: forward_def split: if_splits)
  with fw obtain s where lp: "forward_loop ops D A 0 (layers D) ?s0 = Inr s"
    and qs: "qs = intermediate s" and rps: "rps = intermediate_reference_points s"
    and lgs: "lgs = intermediate_dyn_q_logits s"
    by (auto simp: forward_def split: if_splits sum.splits)
  have "length (intermediate_reference_points ?s0) = Suc (length (intermediate_dyn_q_logits ?s0))"
    and "last (intermediate_reference_points ?s0) = s_reference_points ?s0"
    by simp_all
  from forward_loop_inv [OF lp ri this]
  have lq: "length qs = ?L" and ll: "length lgs = ?L" and lr: "length rps = Suc ?L"
    and tk: "take 1 rps = [?rp0]"
    and rf: "\<forall>k<?L. refined ops A (rps ! k) (lgs ! k) (rps ! Suc k)"
    by (simp_all add: qs rps lgs)
  from tk lr have r0: "rps ! 0 = ?rp0"
    by (metis nth_Cons_0 nth_take zero_less_one)
  have frame: "map length (rps ! k) = map length ?rp0 \<and>
      map (map length) (rps ! k) = map (map length) ?rp0 \<and>
      (\<forall>b<length ?rp0. \<forall>j<length (?rp0 ! b). \<not> ?M ! b ! j \<longrightarrow> rps ! k ! b ! j = ?rp0 ! b ! j)"
    if "k \<le> ?L" for k
    using that
  proof (induction k)
    case 0
    show ?case by (simp add: r0)
  next
    case (Suc k)
    then have k: "k < ?L" by simp
    with rf have "masked_assign (rps ! k) ?M
        (t_weighted ops (t_softmax ops (lgs ! k)) (dyn_q_coords A)) = Inr (rps ! Suc k)"
      by (simp add: refined_def)
    from masked_assign_frame [OF this]
    have sh: "map length (rps ! Suc k) = map length (rps ! k)"
      and wd: "map (map length) (rps ! Suc k) = map (map length) (rps ! k)"
      and keep: "\<forall>b<length (rps ! k). \<forall>j<length (rps ! k ! b).
                   \<not> ?M ! b ! j \<longrightarrow> rps ! Suc k ! b ! j = rps ! k ! b ! j"
      by blast+
    from Suc.IH k have sh0: "map length (rps ! k) = map length ?rp0"
      and wd0: "map (map length) (rps ! k) = map (map length) ?rp0"
      and keep0: "\<forall>b<length ?rp0. \<forall>j<length (?rp0 ! b).
                   \<not> ?M ! b ! j \<longrightarrow> rps ! k ! b ! j = ?rp0 ! b ! j"
      by simp_all
    have "rps ! Suc k ! b ! j = ?rp0 ! b ! j"
      if b: "b < length ?rp0" and j: "j < length (?rp0 ! b)" and m: "\<not> ?M ! b ! j" for b j
    proof -
      from map_length_nth [OF sh0 b] b j
      have "b < length (rps ! k)" "j < length (rps ! k ! b)" by simp_all
      with keep m have "rps ! Suc k ! b ! j = rps ! k ! b ! j" by blast
      with keep0 b j m show ?thesis by simp
    qed
    with sh sh0 wd wd0 show ?case by simp
  qed
  have hit: "rps ! Suc k ! b ! j =
      widen (length (?rp0 ! b ! j))
        (t_weighted ops (t_softmax ops (lgs ! k)) (dyn_q_coords A) !
          (if length (t_weighted ops (t_softmax ops (lgs ! k)) (dyn_q_coords A)) =
              count_true (concat ?M)
           then count_true (concat (take b ?M)) + count_true (take j (?M ! b))
           else 0))"
    if k: "k < ?L" and b: "b < length ?rp0" and j: "j < length (?rp0 ! b)"
      and m: "?M ! b ! j" for k b j
  proof -
    from rf k have a: "masked_assign (rps ! k) ?M
        (t_weighted ops (t_softmax ops (lgs ! k)) (dyn_q_coords A)) = Inr (rps ! Suc k)"
      by (simp add: refined_def)
    from frame [of k] k have sh0: "map length (rps ! k) = map length ?rp0"
      and wd0: "map (map length) (rps ! k) = map (map length) ?rp0"
      by simp_all
    from map_length_nth [OF sh0 b] b j
    have bj: "b < length (rps ! k)" "j < length (rps ! k ! b)" by simp_all
    from wd0 b bj(1) have "map length (rps ! k ! b) = map length (?rp0 ! b)"
      by (metis length_map nth_map)
    with j bj(2) have "length (rps ! k ! b ! j) = length (?rp0 ! b ! j)"
      by (metis length_map nth_map)
    with masked_assign_hit [OF a bj m] show ?thesis by simp
  qed
  from lq ll lr r0 rf frame hit show ?thesis by simp
qed

lemma ex_forward:
  "forward ex_ops ex_decoder ex_forward_args =
     Inr ([[[[Fin 1], [Fin 2], [Fin 3]]], [[[Fin 1], [Fin 2], [Fin 3]]]],
           [[[[Fin 1, Fin 1, Fin 1], [Fin 2, Fin 2, Fin 2], [Fin 3, Fin 3, Fin 3]]],
            [[[Fin 1, Fin 1, Fin 1], [Fin 2, Fin 2, Fin 0], [Fin 3, Fin 3, Fin 3]]],
            [[[Fin 1, Fin 1, Fin 1], [Fin 2, Fin 2, Fin 0], [Fin 3, Fin 3, Fin 3]]]],
           [[[Fin (1 / 2), Fin (1 / 2)]], [[Fin (1 / 2), Fin (1 / 2)]]])"
  by code_simp

lemma ex_dyn_q_ref:
  "t_weighted ex_ops (t_softmax ex_ops [[Fin (1 / 2), Fin (1 / 2)]])
     (dyn_q_coords ex_forward_args) = [[Fin 2, Fin 2, Fin 0]]"
  by code_simp

theorem forward_reference_points_witness:
  "forward ex_ops ex_decoder ex_forward_args =
     Inr ([[[[Fin 1], [Fin 2], [Fin 3]]], [[[Fin 1], [Fin 2], [Fin 3]]]],
           [[[[Fin 1, Fin 1, Fin 1], [Fin 2, Fin 2, Fin 2], [Fin 3, Fin 3, Fin 3]]],
            [[[Fin 1, Fin 1, Fin 1], [Fin 2, Fin 2, Fin 0], [Fin 3, Fin 3, Fin 3]]],
            [[[Fin 1, Fin 1, Fin 1], [Fin 2, Fin 2, Fin 0], [Fin 3, Fin 3, Fin 3]]]],
           [[[Fin (1 / 2), Fin (1 / 2)]], [[Fin (1 / 2), Fin (1 / 2)]]]) \<and>
   length (layers ex_decoder) = 2 \<and>
   [[[[Fin 1, Fin 1, Fin 1], [Fin 2, Fin 2, Fin 2], [Fin 3, Fin 3, Fin 3]]],
      [[[Fin 1, Fin 1, Fin 1], [Fin 2, Fin 2, Fin 0], [Fin 3, Fin 3, Fin 3]]],
      [[[Fin 1, Fin 1, Fin 1], [Fin 2, Fin 2, Fin 0], [Fin 3, Fin 3, Fin 3 :: fl]]]] ! 0 = reference_points ex_forward_args \<and>
   \<not> dyn_q_mask ex_forward_args ! 0 ! 2 \<and>
   [[[[Fin 1, Fin 1, Fin 1], [Fin 2, Fin 2, Fin 2], [Fin 3, Fin 3, Fin 3]]],
      [[[Fin 1, Fin 1, Fin 1], [Fin 2, Fin 2, Fin 0], [Fin 3, Fin 3, Fin 3]]],
      [[[Fin 1, Fin 1, Fin 1], [Fin 2, Fin 2, Fin 0], [Fin 3, Fin 3, Fin 3 :: fl]]]] ! 2 ! 0 ! 2 = reference_points ex_forward_args ! 0 ! 2 \<and>
   dyn_q_mask ex_forward_args ! 0 ! 1 \<and>
   [[[[Fin 1, Fin 1, Fin 1], [Fin 2, Fin 2, Fin 2], [Fin 3, Fin 3, Fin 3]]],
      [[[Fin 1, Fin 1, Fin 1], [Fin 2, Fin 2, Fin 0], [Fin 3, Fin 3, Fin 3]]],
      [[[Fin 1, Fin 1, Fin 1], [Fin 2, Fin 2, Fin 0], [Fin 3, Fin 3, Fin 3 :: fl]]]] ! 2 ! 0 ! 1 =
     widen 3 ([[Fin 2, Fin 2, Fin 0]] ! 0) \<and>
   widen 3 ([[Fin 2, Fin 2, Fin 0 :: fl]] ! 0) = [Fin 2, Fin 2, Fin 0]"
proof -
  let ?rps = "[[[[Fin 1, Fin 1, Fin 1], [Fin 2, Fin 2, Fin 2], [Fin 3, Fin 3, Fin 3]]],
      [[[Fin 1, Fin 1, Fin 1], [Fin 2, Fin 2, Fin 0], [Fin 3, Fin 3, Fin 3]]],
      [[[Fin 1, Fin 1, Fin 1], [Fin 2, Fin 2, Fin 0], [Fin 3, Fin 3, Fin 3 :: fl]]]]"
  let ?lgs = "[[[Fin (1 / 2), Fin (1 / 2)]], [[Fin (1 / 2), Fin (1 / 2 :: rat)]]]"
  note t = forward_reference_points [OF ex_forward]
  have l: "length (layers ex_decoder) = 2" by (simp add: ex_decoder_def)
  have m: "\<not> dyn_q_mask ex_forward_args ! 0 ! 2" "dyn_q_mask ex_forward_args ! 0 ! 1"
    by (simp_all add: ex_forward_args_def)
  have b: "0 < length (reference_points ex_forward_args)"
    "2 < length (reference_points ex_forward_args ! 0)"
    "1 < length (reference_points ex_forward_args ! 0)"
    by (simp_all add: ex_forward_args_def)
  from t have r0: "?rps ! 0 = reference_points ex_forward_args" by blast
  from t have fr: "\<forall>k\<le>length (layers ex_decoder).
      \<forall>b<length (reference_points ex_forward_args).
        \<forall>j<length (reference_points ex_forward_args ! b).
          \<not> dyn_q_mask ex_forward_args ! b ! j \<longrightarrow>
          ?rps ! k ! b ! j = reference_points ex_forward_args ! b ! j"
    by blast
  have keep: "?rps ! 2 ! 0 ! 2 = reference_points ex_forward_args ! 0 ! 2"
    by (rule fr [rule_format, of 2 0 2]) (use l b m(1) in simp_all)
  note h = t [THEN conjunct2, THEN conjunct2, THEN conjunct2, THEN conjunct2,
              THEN conjunct2, THEN conjunct2, rule_format, of 1 0 1]
  have lg: "?lgs ! 1 = [[Fin (1 / 2), Fin (1 / 2)]]" by simp
  have w: "length (reference_points ex_forward_args ! 0 ! 1) = 3"
    by (simp add: ex_forward_args_def)
  have c: "count_true (concat (dyn_q_mask ex_forward_args)) = 1"
    "count_true (concat (take 0 (dyn_q_mask ex_forward_args))) +
       count_true (take 1 (dyn_q_mask ex_forward_args ! 0)) = 0"
    by (simp_all add: ex_forward_args_def count_true_def)
  have "?rps ! Suc 1 ! 0 ! 1 = widen 3 ([[Fin 2, Fin 2, Fin 0]] ! 0)"
    using h l b m(2) unfolding lg ex_dyn_q_ref w c by simp
  then have upd: "?rps ! 2 ! 0 ! 1 = widen 3 ([[Fin 2, Fin 2, Fin 0]] ! 0)"
    by (simp only: numeral_2_eq_2 One_nat_def)
  have wd: "widen 3 ([[Fin 2, Fin 2, Fin 0 :: fl]] ! 0) = [Fin 2, Fin 2, Fin 0]"
    by (simp add: widen_def)
  from ex_forward l r0 m keep upd wd show ?thesis by (intro conjI)
qed

end
